theory Spec2Isabelle
  imports Main "HOL-Library.Sublist" "HOL-Library.AList" "HOL-Library.Char_ord" "HOL-Library.List_Lexorder"
begin

section \<open>Strings and POSIX path arithmetic\<close>

text \<open>
  Python strings are modelled as \<open>string\<close>, one \<open>char\<close> per code point (code points
  below 256).  \<open>s.startswith(p)\<close> is \<open>prefix p s\<close> and \<open>s.endswith(p)\<close> is
  \<open>suffix p s\<close>.  The functions of this section follow \<open>posixpath\<close> of the Python
  standard library, which \<open>client/filesystem.py\<close> calls as \<open>os.path\<close>.
\<close>

definition rstrip_sep :: "string \<Rightarrow> string" where
  \<comment> \<open>\<open>s.rstrip(os.sep)\<close>\<close>
  "rstrip_sep s = rev (dropWhile (\<lambda>c. c = CHR ''/'') (rev s))"

definition isspace :: "char \<Rightarrow> bool" where
  \<comment> \<open>\<open>str.isspace\<close> on the code points below 256\<close>
  "isspace c = (let n = (of_char c :: nat) in
     (9 \<le> n \<and> n \<le> 13) \<or> (28 \<le> n \<and> n \<le> 32) \<or> n = 133 \<or> n = 160)"

definition strip :: "string \<Rightarrow> string" where
  \<comment> \<open>\<open>s.strip()\<close>\<close>
  "strip s = rev (dropWhile isspace (rev (dropWhile isspace s)))"

fun split_chr :: "char \<Rightarrow> string \<Rightarrow> string list" where
  \<comment> \<open>\<open>s.split(c)\<close> for a separator of one character: never an empty list\<close>
  "split_chr c [] = [[]]"
| "split_chr c (x # xs) =
     (if x = c then [] # split_chr c xs
      else (case split_chr c xs of [] \<Rightarrow> [[x]] | w # ws \<Rightarrow> (x # w) # ws))"

fun sep_join :: "string list \<Rightarrow> string" where
  \<comment> \<open>\<open>"/".join(comps)\<close>\<close>
  "sep_join [] = []"
| "sep_join [c] = c"
| "sep_join (c # d # cs) = c @ ''/'' @ sep_join (d # cs)"

definition isabs :: "string \<Rightarrow> bool" where
  "isabs s = prefix ''/'' s"

definition join :: "string \<Rightarrow> string \<Rightarrow> string" where
  \<comment> \<open>one step of the loop of \<open>os.path.join(a, *p)\<close>\<close>
  "join path b =
     (if prefix ''/'' b then b
      else if path = [] \<or> suffix ''/'' path then path @ b
      else path @ ''/'' @ b)"

definition join_list :: "string \<Rightarrow> string list \<Rightarrow> string" where
  \<comment> \<open>\<open>os.path.join(a, *p)\<close>\<close>
  "join_list a p = foldl join a p"

fun normpath_comps :: "bool \<Rightarrow> string list \<Rightarrow> string list \<Rightarrow> string list" where
  \<comment> \<open>the loop of \<open>normpath\<close> over \<open>comps\<close>, building \<open>new_comps\<close>\<close>
  "normpath_comps initial_slashes [] new_comps = new_comps"
| "normpath_comps initial_slashes (c # comps) new_comps =
     (if c = [] \<or> c = ''.'' then normpath_comps initial_slashes comps new_comps
      else if c \<noteq> ''..'' \<or> (\<not> initial_slashes \<and> new_comps = [])
              \<or> (new_comps \<noteq> [] \<and> last new_comps = ''..'')
      then normpath_comps initial_slashes comps (new_comps @ [c])
      else if new_comps \<noteq> [] then normpath_comps initial_slashes comps (butlast new_comps)
      else normpath_comps initial_slashes comps new_comps)"

definition initial_slashes :: "string \<Rightarrow> nat" where
  \<comment> \<open>POSIX keeps exactly two leading slashes, and treats three or more as one\<close>
  "initial_slashes path =
     (if prefix ''/'' path
      then (if prefix ''//'' path \<and> \<not> prefix ''///'' path then 2 else 1)
      else 0)"

definition normpath :: "string \<Rightarrow> string" where
  "normpath path =
     (if path = [] then ''.''
      else let comps = normpath_comps (initial_slashes path \<noteq> 0) (split_chr CHR ''/'' path) [];
               p = replicate (initial_slashes path) CHR ''/'' @ sep_join comps
           in if p = [] then ''.'' else p)"

definition abspath :: "string \<Rightarrow> string \<Rightarrow> string" where
  \<comment> \<open>\<open>os.path.abspath(path)\<close>; the first argument is \<open>os.getcwd()\<close>\<close>
  "abspath cwd path = normpath (if isabs path then path else join cwd path)"

definition dirname :: "string \<Rightarrow> string" where
  "dirname p =
     (let head = rev (dropWhile (\<lambda>c. c \<noteq> CHR ''/'') (rev p))
      in if head \<noteq> [] \<and> head \<noteq> replicate (length head) CHR ''/'' then rstrip_sep head else head)"

section \<open>Errors\<close>

text \<open>
  Every exception the code can meet is a value.  \<open>OSError e\<close> carries the errno
  (\<open>NoErrno\<close> when Python raises it without one); Python's \<open>FileNotFoundError\<close> is
  \<open>OSError ENOENT\<close>, so \<open>except FileNotFoundError\<close> catches exactly that value and
  \<open>except OSError\<close> catches every \<open>OSError e\<close>.
\<close>

datatype errno = ENOENT | EEXIST | ENOTDIR | EISDIR | EBUSY | ELOOP | NoErrno

datatype error =
    CalledProcessError
  | EnvironmentException string
  | ValueError string
  | TypeError string
  | RuntimeError string
  | OSError errno

definition relpath :: "string \<Rightarrow> string \<Rightarrow> string \<Rightarrow> error + string" where
  \<comment> \<open>\<open>os.path.relpath(path, start)\<close>; the first argument is \<open>os.getcwd()\<close>\<close>
  "relpath cwd path start =
     (if path = [] then Inl (ValueError ''no path specified'')
      else let start_list = filter (\<lambda>x. x \<noteq> []) (split_chr CHR ''/'' (abspath cwd start));
               path_list = filter (\<lambda>x. x \<noteq> []) (split_chr CHR ''/'' (abspath cwd path));
               i = length (longest_common_prefix start_list path_list);
               rel_list = replicate (length start_list - i) ''..'' @ drop i path_list
           in (case rel_list of [] \<Rightarrow> Inr ''.'' | a # p \<Rightarrow> Inr (join_list a p)))"

section \<open>The environment\<close>

text \<open>
  What the program asks of the operating system and of its external collaborators, and
  only reads, is a field of \<open>world\<close>: the working directory and process id, the
  standard output of a subprocess (\<open>subprocess.check_output\<close>, an error when the
  process fails), \<open>os.path.realpath\<close>, \<open>os.path.isfile\<close>, \<open>os.path.exists\<close>,
  \<open>os.stat(path).st_size\<close>, the build-target resolver \<open>buck.generate_source_directories\<close>,
  and the order in which a \<open>for\<close> loop yields the elements of a Python set of strings
  (fixed by the hashes of the strings, not by the order of insertion).  The theorems hold
  for every \<open>world\<close>.
\<close>

record world =
  getcwd :: string
  getpid :: nat
  check_output :: "string list \<Rightarrow> error + string"
  realpath :: "string \<Rightarrow> string"
  isfile :: "string \<Rightarrow> bool"
  path_exists :: "string \<Rightarrow> bool"
  st_size :: "string \<Rightarrow> error + nat"
  generate_source_directories :: "string set \<Rightarrow> bool \<Rightarrow> bool \<Rightarrow> error + string set"
  iteration_order :: "string set \<Rightarrow> string list"

section \<open>Path Translator\<close>

definition translate_path :: "world \<Rightarrow> string \<Rightarrow> string \<Rightarrow> string" where
  "translate_path w root path =
     (if isabs path then path
      else let translated = join root path
           in if path_exists w translated then realpath w translated else path)"

definition translate_paths :: "world \<Rightarrow> string set \<Rightarrow> string \<Rightarrow> error + string set" where
  "translate_paths w paths original_directory =
     (let current_directory = getcwd w
      in if \<not> prefix current_directory original_directory then Inr paths
         else (case relpath (getcwd w) original_directory current_directory of
                 Inl e \<Rightarrow> Inl e
               | Inr translation \<Rightarrow>
                   if translation = [] then Inr paths
                   else Inr (translate_path w translation ` paths)))"

text \<open>
  The loop of \<open>find_root\<close> may run forever, so it is a partial function: the outer
  \<open>None\<close> is "does not return", \<open>Some None\<close> is the Python value \<open>None\<close>.
\<close>

partial_function (option) find_root_loop :: "world \<Rightarrow> string \<Rightarrow> string \<Rightarrow> string option option" where
  "find_root_loop w target_file current_directory =
     (if current_directory \<noteq> ''/''
      then (let absolute = join current_directory target_file
            in if isfile w absolute then Some (Some current_directory)
               else find_root_loop w target_file (dirname current_directory))
      else Some None)"

definition find_root :: "world \<Rightarrow> string \<Rightarrow> string \<Rightarrow> string option option" where
  "find_root w original_directory target_file =
     find_root_loop w target_file (abspath (getcwd w) original_directory)"

section \<open>File Lister\<close>

fun extension_filter :: "string list \<Rightarrow> string list \<Rightarrow> string list" where
  \<comment> \<open>the loop of \<open>find_paths_with_extensions\<close> that builds \<open>extension_filter\<close>\<close>
  "extension_filter [] acc = acc"
| "extension_filter (extension # extensions) acc =
     extension_filter extensions
       ((if length acc > 0 then acc @ [''-or''] else acc) @ [''-name'', ''*.'' @ extension])"

definition find_command :: "string \<Rightarrow> string list \<Rightarrow> string list" where
  "find_command root extensions =
     [''find'', root, ''(''] @ extension_filter extensions [] @
     ['')'', ''('', ''-type'', ''f'', ''-or'', ''-type'', ''l'', '')'', ''-print'']"

definition find_paths_with_extensions :: "world \<Rightarrow> string \<Rightarrow> string list \<Rightarrow> error + string list" where
  "find_paths_with_extensions w root extensions =
     (let root' = abspath (getcwd w) root
      in case check_output w (find_command root' extensions) of
           Inl e \<Rightarrow> Inl e
         | Inr output \<Rightarrow> Inr (split_chr CHR ''\<newline>'' (strip output)))"

definition listing_failure_message :: string where
  "listing_failure_message =
     ''Pyre was unable to locate an analysis directory. '' @
     ''Ensure that your project is built and re-run pyre.''"

definition find_python_paths :: "world \<Rightarrow> string \<Rightarrow> error + string list" where
  "find_python_paths w root =
     (case find_paths_with_extensions w root [''py'', ''pyi''] of
        Inl CalledProcessError \<Rightarrow> Inl (EnvironmentException listing_failure_message)
      | Inl e \<Rightarrow> Inl e
      | Inr paths \<Rightarrow> Inr paths)"

definition is_empty :: "world \<Rightarrow> string \<Rightarrow> error + bool" where
  "is_empty w path =
     (case st_size w path of
        Inr n \<Rightarrow> Inr (n = 0)
      | Inl (OSError ENOENT) \<Rightarrow> Inr False
      | Inl e \<Rightarrow> Inl e)"

section \<open>Merge Engine: the mapping\<close>

text \<open>
  \<open>all_paths\<close> is a Python dict; it is an association list in insertion order (the order
  in which \<open>all_paths.items()\<close> yields it), looked up with \<open>map_of\<close>.  A key is only
  ever inserted when it is absent.
\<close>

definition merge_candidate :: "world \<Rightarrow> string \<Rightarrow> string \<Rightarrow> error + string option" where
  \<comment> \<open>the body of the \<open>try\<close> in \<open>_merge_into_paths\<close>: \<open>Inr None\<close> is \<open>continue\<close>,
      \<open>Inr (Some absolute)\<close> the value stored under \<open>relative\<close>\<close>
  "merge_candidate w path relative =
     (let absolute = realpath w path
      in if \<not> isfile w absolute then Inr None
         else if suffix ''__init__.py'' relative
         then (case is_empty w absolute of
                 Inl e \<Rightarrow> Inl e
               | Inr True \<Rightarrow> Inr None
               | Inr False \<Rightarrow> Inr (Some absolute))
         else Inr (Some absolute))"

fun merge_into_paths_loop ::
  "world \<Rightarrow> string \<Rightarrow> string list \<Rightarrow> (string \<times> string) list \<Rightarrow> error + (string \<times> string) list" where
  "merge_into_paths_loop w source_directory [] all_paths = Inr all_paths"
| "merge_into_paths_loop w source_directory (path # paths) all_paths =
     (case relpath (getcwd w) path source_directory of
        Inl e \<Rightarrow> Inl e
      | Inr relative \<Rightarrow>
          if path = [] then merge_into_paths_loop w source_directory paths all_paths
          else if map_of all_paths relative \<noteq> None
          then merge_into_paths_loop w source_directory paths all_paths
          else (case merge_candidate w path relative of
                  Inl (OSError ENOENT) \<Rightarrow> merge_into_paths_loop w source_directory paths all_paths
                | Inl e \<Rightarrow> Inl e
                | Inr None \<Rightarrow> merge_into_paths_loop w source_directory paths all_paths
                | Inr (Some absolute) \<Rightarrow>
                    merge_into_paths_loop w source_directory paths (all_paths @ [(relative, absolute)])))"

definition merge_into_paths ::
  "world \<Rightarrow> string \<Rightarrow> (string \<times> string) list \<Rightarrow> error + (string \<times> string) list" where
  "merge_into_paths w source_directory all_paths =
     (case find_python_paths w source_directory of
        Inl e \<Rightarrow> Inl e
      | Inr paths \<Rightarrow> merge_into_paths_loop w source_directory paths all_paths)"

fun merge_directories ::
  "world \<Rightarrow> string list \<Rightarrow> (string \<times> string) list \<Rightarrow> error + (string \<times> string) list" where
  \<comment> \<open>the first loop of \<open>_merge\<close>, over the source directories in iteration order\<close>
  "merge_directories w [] all_paths = Inr all_paths"
| "merge_directories w (source_directory # rest) all_paths =
     (case merge_into_paths w source_directory all_paths of
        Inl e \<Rightarrow> Inl e
      | Inr all_paths' \<Rightarrow> merge_directories w rest all_paths')"

section \<open>The analysis directory object\<close>

text \<open>
  \<open>SharedAnalysisDirectory\<close> with the fields its constructor sets.  The two sets of
  strings are sets; \<open>symbolic_links\<close> is a dict that is only looked up.
\<close>

record SharedAnalysisDirectory =
  source_directories :: "string set"
  targets :: "string set"
  original_directory :: "string option"
  filter_paths :: "string list"
  local_configuration_root :: "string option"
  search_path :: "string list"
  isolate :: bool
  build :: bool
  prompt :: bool
  symbolic_links :: "string \<rightharpoonup> string"

fun digits :: "nat \<Rightarrow> string" where
  \<comment> \<open>\<open>str(n)\<close> for a natural number\<close>
  "digits n =
     (if n < 10 then [char_of (48 + n)] else digits (n div 10) @ [char_of (48 + n mod 10)])"

declare digits.simps [simp del]

definition get_scratch_directory :: "world \<Rightarrow> string" where
  "get_scratch_directory w =
     (case check_output w [''scratch'', ''path'', ''--subdir'', ''pyre''] of
        Inr output \<Rightarrow> strip output
      | Inl e \<Rightarrow> join (getcwd w) ''.pyre'')"

definition get_root :: "world \<Rightarrow> SharedAnalysisDirectory \<Rightarrow> string" where
  "get_root w s =
     (let path_to_root =
            (case local_configuration_root s of
               None \<Rightarrow> ''shared_analysis_directory''
             | Some r \<Rightarrow> if r = [] then ''shared_analysis_directory'' else r);
          suffix = (if isolate s then ''_'' @ digits (getpid w) else [])
      in join (get_scratch_directory w) (path_to_root @ suffix))"

definition tracked_directories :: "world \<Rightarrow> SharedAnalysisDirectory \<Rightarrow> string list" where
  \<comment> \<open>\<open>path.split("$")\<close> is never empty, so \<open>os.path.join\<close> always has a first argument\<close>
  "tracked_directories w s =
     map (abspath (getcwd w))
       (get_root w s #
        map (\<lambda>path. case split_chr CHR ''$'' path of [] \<Rightarrow> [] | a # p \<Rightarrow> join_list a p)
          (search_path s))"

definition is_tracked :: "world \<Rightarrow> SharedAnalysisDirectory \<Rightarrow> string \<Rightarrow> bool" where
  "is_tracked w s path =
     list_ex (\<lambda>directory. prefix (rstrip_sep directory @ ''/'') path) (tracked_directories w s)"

fun process_updated_files_loop ::
  "world \<Rightarrow> SharedAnalysisDirectory \<Rightarrow> string list \<Rightarrow> string list \<Rightarrow> string list" where
  "process_updated_files_loop w s [] tracked_files = tracked_files"
| "process_updated_files_loop w s (path # paths) tracked_files =
     (case symbolic_links s path of
        Some link \<Rightarrow> process_updated_files_loop w s paths (tracked_files @ [link])
      | None \<Rightarrow>
          if is_tracked w s path
          then process_updated_files_loop w s paths (tracked_files @ [path])
          else process_updated_files_loop w s paths tracked_files)"

definition process_updated_files ::
  "world \<Rightarrow> SharedAnalysisDirectory \<Rightarrow> string list \<Rightarrow> string list" where
  "process_updated_files w s paths = process_updated_files_loop w s paths []"

section \<open>Symbolic Link Mapper\<close>

datatype log_record = Warning string "error list"

definition compute_symbolic_link_mapping ::
  "world \<Rightarrow> string \<Rightarrow> string list \<Rightarrow> error + (string \<rightharpoonup> string) \<times> log_record list" where
  \<comment> \<open>the dict that is returned, and what was written to \<open>LOG\<close>\<close>
  "compute_symbolic_link_mapping w directory extensions =
     (case find_paths_with_extensions w directory extensions of
        Inr links \<Rightarrow>
          Inr (fold (\<lambda>symbolic_link symbolic_links.
                       symbolic_links(realpath w symbolic_link \<mapsto> symbolic_link))
                 links Map.empty, [])
      | Inl CalledProcessError \<Rightarrow>
          Inr (Map.empty,
               [Warning (''Exception encountered trying to find source files '' @
                         ''in the analysis directory: `%s`'') [CalledProcessError],
                Warning ''Starting with an empty set of tracked files.'' []])
      | Inl e \<Rightarrow> Inl e)"

definition init_shared ::
  "world \<Rightarrow> string list \<Rightarrow> string list \<Rightarrow> string option \<Rightarrow> string list option \<Rightarrow> string option \<Rightarrow>
   string list option \<Rightarrow> string list option \<Rightarrow> bool \<Rightarrow> bool \<Rightarrow> bool \<Rightarrow>
   error + SharedAnalysisDirectory \<times> log_record list" where
  \<comment> \<open>\<open>SharedAnalysisDirectory.__init__\<close>\<close>
  "init_shared w source_directories' targets' original_directory' filter_paths'
       local_configuration_root' extensions search_path' isolate' build' prompt' =
     (let s = \<lparr> source_directories = set source_directories',
                targets = set targets',
                original_directory = original_directory',
                filter_paths = (case filter_paths' of None \<Rightarrow> [] | Some l \<Rightarrow> l),
                local_configuration_root = local_configuration_root',
                search_path = (case search_path' of None \<Rightarrow> [] | Some l \<Rightarrow> l),
                isolate = isolate', build = build', prompt = prompt',
                symbolic_links = Map.empty \<rparr>;
          extensions' = (case extensions of None \<Rightarrow> [''py'', ''pyi'']
                         | Some l \<Rightarrow> if l = [] then [''py'', ''pyi''] else l)
      in case compute_symbolic_link_mapping w (get_root w s) extensions' of
           Inl e \<Rightarrow> Inl e
         | Inr (links, logged) \<Rightarrow> Inr (s\<lparr>symbolic_links := links\<rparr>, logged))"

definition no_sources_message :: string where
  "no_sources_message = ''No targets or source directories to analyze.''"

definition resolve_source_directories ::
  "world \<Rightarrow> SharedAnalysisDirectory \<Rightarrow> error + SharedAnalysisDirectory" where
  "resolve_source_directories w s =
     (case (if targets s \<noteq> {}
            then (case generate_source_directories w (targets s) (build s) (prompt s) of
                    Inl e \<Rightarrow> Inl e
                  | Inr new_source_directories \<Rightarrow>
                      (case (case original_directory s of
                               None \<Rightarrow> Inr new_source_directories
                             | Some d \<Rightarrow> translate_paths w new_source_directories d) of
                         Inl e \<Rightarrow> Inl e
                       | Inr new_source_directories' \<Rightarrow>
                           Inr (s\<lparr>source_directories :=
                                    source_directories s \<union> new_source_directories'\<rparr>)))
            else Inr s) of
        Inl e \<Rightarrow> Inl e
      | Inr s' \<Rightarrow>
          if source_directories s' = {}
          then Inl (EnvironmentException no_sources_message)
          else Inr s')"

section \<open>The directory tree the program writes\<close>

text \<open>
  The analysis directory is created, cleared and filled by the program, so the file tree
  is an explicit state: a \<open>node\<close> is a regular file (with its size), a symbolic link (with
  its target) or a directory (with its entries, looked up by the first matching name).
  A path is walked from the root along \<open>resolve\<close>: the components of the absolute path,
  empty components and \<open>.\<close> skipped, \<open>..\<close> stepping back.  The walk does not follow
  symbolic links: a path that leads through one does not resolve.
\<close>

datatype node = File nat | Symlink string | Dir "(string \<times> node) list"

definition entry_name :: "string \<Rightarrow> bool" where
  \<comment> \<open>the names a directory can hold\<close>
  "entry_name name \<longleftrightarrow> name \<noteq> [] \<and> CHR ''/'' \<notin> set name \<and> name \<noteq> ''.'' \<and> name \<noteq> ''..''"

definition resolve :: "string \<Rightarrow> string \<Rightarrow> string list" where
  "resolve cwd path =
     normpath_comps True (split_chr CHR ''/'' (if isabs path then path else join cwd path)) []"

fun lookup :: "node \<Rightarrow> string list \<Rightarrow> node option"
  and lookup_entry :: "(string \<times> node) list \<Rightarrow> string \<Rightarrow> string list \<Rightarrow> node option" where
  "lookup n [] = Some n"
| "lookup (Dir es) (c # cs) = lookup_entry es c cs"
| "lookup (File sz) (c # cs) = None"
| "lookup (Symlink target) (c # cs) = None"
| "lookup_entry [] c cs = None"
| "lookup_entry ((k, v) # es) c cs = (if k = c then lookup v cs else lookup_entry es c cs)"

fun modify_dir :: "string list \<Rightarrow> ((string \<times> node) list \<Rightarrow> (string \<times> node) list) \<Rightarrow> node \<Rightarrow> node"
  and modify_entry ::
    "string \<Rightarrow> string list \<Rightarrow> ((string \<times> node) list \<Rightarrow> (string \<times> node) list) \<Rightarrow>
     (string \<times> node) list \<Rightarrow> (string \<times> node) list" where
  \<comment> \<open>replace the entries of the directory at a path, and nothing else\<close>
  "modify_dir [] f (Dir es) = Dir (f es)"
| "modify_dir [] f (File sz) = File sz"
| "modify_dir [] f (Symlink target) = Symlink target"
| "modify_dir (c # cs) f (Dir es) = Dir (modify_entry c cs f es)"
| "modify_dir (c # cs) f (File sz) = File sz"
| "modify_dir (c # cs) f (Symlink target) = Symlink target"
| "modify_entry c cs f [] = []"
| "modify_entry c cs f ((k, v) # es) =
     (if k = c then (k, modify_dir cs f v) # es else (k, v) # modify_entry c cs f es)"

definition delete_entry :: "string list \<Rightarrow> node \<Rightarrow> node" where
  \<comment> \<open>the root directory has no entry of its own\<close>
  "delete_entry cs fs =
     (if cs = [] then fs else modify_dir (butlast cs) (AList.delete (last cs)) fs)"

definition add_entry :: "string list \<Rightarrow> node \<Rightarrow> node \<Rightarrow> node" where
  "add_entry cs n fs =
     (if cs = [] then fs else modify_dir (butlast cs) (AList.update (last cs) n) fs)"

definition os_listdir :: "string \<Rightarrow> node \<Rightarrow> string \<Rightarrow> error + string list" where
  "os_listdir cwd fs path =
     (if path = [] then Inl (OSError ENOENT)
      else case lookup fs (resolve cwd path) of
             None \<Rightarrow> Inl (OSError ENOENT)
           | Some (Dir es) \<Rightarrow> Inr (map fst es)
           | Some n \<Rightarrow> Inl (OSError ENOTDIR))"

definition os_remove :: "string \<Rightarrow> node \<Rightarrow> string \<Rightarrow> error + node" where
  \<comment> \<open>\<open>os.remove\<close> and \<open>os.unlink\<close>: files and symbolic links only\<close>
  "os_remove cwd fs path =
     (if path = [] then Inl (OSError ENOENT)
      else case lookup fs (resolve cwd path) of
             None \<Rightarrow> Inl (OSError ENOENT)
           | Some (Dir es) \<Rightarrow> Inl (OSError EISDIR)
           | Some n \<Rightarrow> Inr (delete_entry (resolve cwd path) fs))"

definition shutil_rmtree :: "string \<Rightarrow> node \<Rightarrow> string \<Rightarrow> error option \<times> node" where
  \<comment> \<open>\<open>shutil.rmtree\<close>: a directory with all it holds; refuses a symbolic link.  The
      result is the exception raised, if any, and the tree it leaves: on the root directory
      everything is removed before the removal of the root itself fails.\<close>
  "shutil_rmtree cwd fs path =
     (if path = [] then (Some (OSError ENOENT), fs)
      else case lookup fs (resolve cwd path) of
             None \<Rightarrow> (Some (OSError ENOENT), fs)
           | Some (File sz) \<Rightarrow> (Some (OSError ENOTDIR), fs)
           | Some (Symlink target) \<Rightarrow> (Some (OSError NoErrno), fs)
           | Some (Dir es) \<Rightarrow>
               if resolve cwd path = [] then (Some (OSError EBUSY), Dir [])
               else (None, delete_entry (resolve cwd path) fs))"

fun new_dirs :: "string list \<Rightarrow> node" where
  "new_dirs [] = Dir []"
| "new_dirs (c # cs) = Dir [(c, new_dirs cs)]"

fun makedirs_at :: "string list \<Rightarrow> node \<Rightarrow> error + node"
  and makedirs_entry :: "string \<Rightarrow> string list \<Rightarrow> (string \<times> node) list \<Rightarrow> error + (string \<times> node) list" where
  "makedirs_at [] n = Inl (OSError EEXIST)"
| "makedirs_at (c # cs) (Dir es) =
     (case makedirs_entry c cs es of Inl e \<Rightarrow> Inl e | Inr es' \<Rightarrow> Inr (Dir es'))"
| "makedirs_at (c # cs) (File sz) = Inl (OSError ENOTDIR)"
| "makedirs_at (c # cs) (Symlink target) = Inl (OSError ENOTDIR)"
| "makedirs_entry c cs [] = Inr [(c, new_dirs cs)]"
| "makedirs_entry c cs ((k, v) # es) =
     (if k = c
      then (case makedirs_at cs v of Inl e \<Rightarrow> Inl e | Inr v' \<Rightarrow> Inr ((k, v') # es))
      else (case makedirs_entry c cs es of Inl e \<Rightarrow> Inl e | Inr es' \<Rightarrow> Inr ((k, v) # es')))"

definition os_makedirs :: "string \<Rightarrow> node \<Rightarrow> string \<Rightarrow> error + node" where
  \<comment> \<open>\<open>os.makedirs(path)\<close>: the missing directories along the path; fails when the
      path exists or leads through something that is not a directory\<close>
  "os_makedirs cwd fs path =
     (if path = [] then Inl (OSError ENOENT) else makedirs_at (resolve cwd path) fs)"

definition create_at :: "string list \<Rightarrow> node \<Rightarrow> node \<Rightarrow> error + node" where
  \<comment> \<open>a new entry in an existing directory\<close>
  "create_at cs n fs =
     (case lookup fs (butlast cs) of
        None \<Rightarrow> Inl (OSError ENOENT)
      | Some (Dir es) \<Rightarrow> Inr (add_entry cs n fs)
      | Some m \<Rightarrow> Inl (OSError ENOTDIR))"

definition os_symlink :: "string \<Rightarrow> node \<Rightarrow> string \<Rightarrow> string \<Rightarrow> error + node" where
  \<comment> \<open>\<open>os.symlink(src, dst)\<close>\<close>
  "os_symlink cwd fs src dst =
     (if dst = [] then Inl (OSError ENOENT)
      else case lookup fs (resolve cwd dst) of
             Some n \<Rightarrow> Inl (OSError EEXIST)
           | None \<Rightarrow> create_at (resolve cwd dst) (Symlink src) fs)"

definition open_for_writing :: "string \<Rightarrow> node \<Rightarrow> string \<Rightarrow> error + node" where
  \<comment> \<open>\<open>open(path, "w+")\<close>: creates the file, or truncates it\<close>
  "open_for_writing cwd fs path =
     (if path = [] then Inl (OSError ENOENT)
      else case lookup fs (resolve cwd path) of
             Some (Dir es) \<Rightarrow> Inl (OSError EISDIR)
           | Some (Symlink target) \<Rightarrow> Inl (OSError ELOOP)
           | Some (File sz) \<Rightarrow> Inr (add_entry (resolve cwd path) (File 0) fs)
           | None \<Rightarrow> create_at (resolve cwd path) (File 0) fs)"

section \<open>Merge Engine: clear, merge, prepare\<close>

definition remove_if_exists :: "string \<Rightarrow> node \<Rightarrow> string \<Rightarrow> error + node" where
  "remove_if_exists cwd fs path =
     (case (case os_remove cwd fs path of
              Inl (OSError n) \<Rightarrow> Inr fs
            | Inl e \<Rightarrow> Inl e
            | Inr fs' \<Rightarrow> Inr fs') of
        Inl e \<Rightarrow> Inl e
      | Inr fs1 \<Rightarrow>
          (case shutil_rmtree cwd fs1 path of
             (Some (OSError n), fs2) \<Rightarrow> Inr fs2
           | (Some e, fs2) \<Rightarrow> Inl e
           | (None, fs2) \<Rightarrow> Inr fs2))"

fun clear_loop :: "string \<Rightarrow> string \<Rightarrow> string list \<Rightarrow> node \<Rightarrow> error + node" where
  "clear_loop cwd root [] fs = Inr fs"
| "clear_loop cwd root (path # paths) fs =
     (if prefix ''.pyre'' path then clear_loop cwd root paths fs
      else (case remove_if_exists cwd fs (join root path) of
              Inl e \<Rightarrow> Inl e
            | Inr fs' \<Rightarrow> clear_loop cwd root paths fs'))"

definition clear :: "world \<Rightarrow> SharedAnalysisDirectory \<Rightarrow> node \<Rightarrow> error + node" where
  "clear w s fs =
     (let root = get_root w s
      in case os_listdir (getcwd w) fs root of
           Inl e \<Rightarrow> Inl e
         | Inr paths \<Rightarrow> clear_loop (getcwd w) root paths fs)"

definition add_symbolic_link :: "string \<Rightarrow> node \<Rightarrow> string \<Rightarrow> string \<Rightarrow> error + node" where
  "add_symbolic_link cwd fs link_path actual_path =
     (let directory = dirname link_path
      in case (case os_makedirs cwd fs directory of
                 Inl (OSError n) \<Rightarrow> Inr fs
               | Inl e \<Rightarrow> Inl e
               | Inr fs' \<Rightarrow> Inr fs') of
           Inl e \<Rightarrow> Inl e
         | Inr fs1 \<Rightarrow>
             (case os_symlink cwd fs1 actual_path link_path of
                Inr fs2 \<Rightarrow> Inr fs2
              | Inl (OSError EEXIST) \<Rightarrow>
                  (case os_remove cwd fs1 link_path of
                     Inl e \<Rightarrow> Inl e
                   | Inr fs2 \<Rightarrow> os_symlink cwd fs2 actual_path link_path)
              | Inl (OSError n) \<Rightarrow> Inr fs1
              | Inl e \<Rightarrow> Inl e))"

fun add_symbolic_links ::
  "string \<Rightarrow> string \<Rightarrow> (string \<times> string) list \<Rightarrow> node \<Rightarrow> error + node" where
  \<comment> \<open>the second loop of \<open>_merge\<close>, over \<open>all_paths.items()\<close>\<close>
  "add_symbolic_links cwd root [] fs = Inr fs"
| "add_symbolic_links cwd root ((relative, original) # rest) fs =
     (case add_symbolic_link cwd fs (join root relative) original of
        Inl e \<Rightarrow> Inl e
      | Inr fs' \<Rightarrow> add_symbolic_links cwd root rest fs')"

definition merged_paths :: "world \<Rightarrow> SharedAnalysisDirectory \<Rightarrow> error + (string \<times> string) list" where
  \<comment> \<open>\<open>all_paths\<close> after the first loop of \<open>_merge\<close>\<close>
  "merged_paths w s = merge_directories w (iteration_order w (source_directories s)) []"

definition merge :: "world \<Rightarrow> SharedAnalysisDirectory \<Rightarrow> node \<Rightarrow> error + node" where
  "merge w s fs =
     (let root = get_root w s
      in case merged_paths w s of
           Inl e \<Rightarrow> Inl e
         | Inr all_paths \<Rightarrow> add_symbolic_links (getcwd w) root all_paths fs)"

definition acquire_lock ::
  "string \<Rightarrow> node \<Rightarrow> string \<Rightarrow> (node \<Rightarrow> error + node) \<Rightarrow> error + node" where
  \<comment> \<open>\<open>with acquire_lock(path, blocking=True): body\<close>, for one process: the lock is always
      granted.  When the lock file cannot be opened because its directory is missing, the body
      runs without a lock.  A \<open>FileNotFoundError\<close> raised by the body under the lock is
      caught by the generator, which yields a second time: the context manager then raises
      \<open>RuntimeError\<close>.\<close>
  "acquire_lock cwd fs path body =
     (case open_for_writing cwd fs path of
        Inl (OSError ENOENT) \<Rightarrow> body fs
      | Inl e \<Rightarrow> Inl e
      | Inr fs1 \<Rightarrow>
          (case body fs1 of
             Inl (OSError ENOENT) \<Rightarrow> Inl (RuntimeError ''generator didn't stop after throw()'')
           | Inl e \<Rightarrow> Inl e
           | Inr fs2 \<Rightarrow> Inr fs2))"

definition prepare ::
  "world \<Rightarrow> SharedAnalysisDirectory \<Rightarrow> node \<Rightarrow> error + SharedAnalysisDirectory \<times> node" where
  "prepare w s fs =
     (let root = get_root w s
      in case resolve_source_directories w s of
           Inl e \<Rightarrow> Inl e
         | Inr s' \<Rightarrow>
             (case (case os_makedirs (getcwd w) fs root of
                      Inl (OSError n) \<Rightarrow> Inr fs
                    | Inl e \<Rightarrow> Inl e
                    | Inr fs' \<Rightarrow> Inr fs') of
                Inl e \<Rightarrow> Inl e
              | Inr fs1 \<Rightarrow>
                  (let lock = join root ''.pyre.lock''
                   in case acquire_lock (getcwd w) fs1 lock
                             (\<lambda>fs2. case clear w s' fs2 of
                                      Inl e \<Rightarrow> Inl e
                                    | Inr fs3 \<Rightarrow> merge w s' fs3) of
                        Inl e \<Rightarrow> Inl e
                      | Inr fs4 \<Rightarrow> Inr (s', fs4))))"

definition cleanup :: "world \<Rightarrow> SharedAnalysisDirectory \<Rightarrow> node \<Rightarrow> node" where
  "cleanup w s fs =
     (if isolate s
      then snd (shutil_rmtree (getcwd w) fs (get_root w s))
      else fs)"

section \<open>Taint-annotation specification types\<close>

text \<open>
  A \<open>Set[str]\<close> field of \<open>WhitelistSpecification\<close> is given by the list of its elements in
  the order they were inserted; two such sets are equal when they have the same elements.
  \<open>hash_field\<close> is one component of the tuple that \<open>__hash__\<close> hashes,
  \<open>x and tuple(sorted(x))\<close>: \<open>None\<close> stays \<open>None\<close>, a non-empty set becomes the sorted
  tuple, and an empty set (falsy) stays a set, which \<open>hash\<close> refuses.  The first argument
  of \<open>whitelist_hash\<close> is Python's \<open>hash\<close> on tuples of hashable values.
\<close>

record WhitelistSpecification =
  parameter_type :: "string list option"
  parameter_name :: "string list option"

datatype hashable = HNone | HTuple "string list"

definition unhashable_set_message :: string where
  "unhashable_set_message = ''unhashable type: 'set'' @ [CHR 0x27]"

fun hash_field :: "string list option \<Rightarrow> error + hashable" where
  "hash_field None = Inr HNone"
| "hash_field (Some xs) =
     (if xs = [] then Inl (TypeError unhashable_set_message)
      else Inr (HTuple (sort (remdups xs))))"

definition whitelist_hash ::
  "(hashable \<times> hashable \<Rightarrow> int) \<Rightarrow> WhitelistSpecification \<Rightarrow> error + int" where
  "whitelist_hash h spec =
     (case hash_field (parameter_type spec) of
        Inl e \<Rightarrow> Inl e
      | Inr t \<Rightarrow>
          (case hash_field (parameter_name spec) of
             Inl e \<Rightarrow> Inl e
           | Inr n \<Rightarrow> Inr (h (t, n))))"

fun field_eq :: "string list option \<Rightarrow> string list option \<Rightarrow> bool" where
  \<comment> \<open>\<open>==\<close> on \<open>Optional[Set[str]]\<close>\<close>
  "field_eq None None = True"
| "field_eq (Some xs) (Some ys) = (set xs = set ys)"
| "field_eq _ _ = False"

definition whitelist_eq :: "WhitelistSpecification \<Rightarrow> WhitelistSpecification \<Rightarrow> bool" where
  \<comment> \<open>\<open>==\<close> of the named tuples: field by field\<close>
  "whitelist_eq a b =
     (field_eq (parameter_type a) (parameter_type b) \<and>
      field_eq (parameter_name a) (parameter_name b))"

section \<open>Example environments\<close>

text \<open>
  A small environment given by two tables: the standard output of \<open>find\<close> for each root
  it can list (\<open>find\<close> fails on any other root, and so does every other command), and the
  size of each regular file.  There are no symbolic links, the working directory is \<open>/\<close>,
  and a set is iterated in sorted order.
\<close>

definition table_world :: "(string \<times> string) list \<Rightarrow> (string \<times> nat) list \<Rightarrow> world" where
  "table_world listings files = \<lparr>
     getcwd = ''/'',
     getpid = 4242,
     check_output = (\<lambda>argv.
       case argv of
         command # root # arguments \<Rightarrow>
           if command = ''find''
           then (case map_of listings root of
                   Some output \<Rightarrow> Inr output
                 | None \<Rightarrow> Inl CalledProcessError)
           else Inl CalledProcessError
       | _ \<Rightarrow> Inl CalledProcessError),
     realpath = (\<lambda>p. p),
     isfile = (\<lambda>p. map_of files p \<noteq> None),
     path_exists = (\<lambda>p. map_of files p \<noteq> None),
     st_size = (\<lambda>p. case map_of files p of Some n \<Rightarrow> Inr n | None \<Rightarrow> Inl (OSError ENOENT)),
     generate_source_directories = (\<lambda>targets build prompt. Inr {}),
     iteration_order = sorted_list_of_set
   \<rparr>"

definition directory_of :: "string set \<Rightarrow> SharedAnalysisDirectory" where
  \<comment> \<open>the object for a set of source directories, every other argument at its default\<close>
  "directory_of dirs = \<lparr>
     source_directories = dirs, targets = {}, original_directory = None, filter_paths = [],
     local_configuration_root = None, search_path = [], isolate = False, build = False,
     prompt = False, symbolic_links = Map.empty \<rparr>"

definition example_world :: world where
  \<comment> \<open>\<open>/a\<close> holds \<open>pkg/__init__.py\<close> (0 bytes) and \<open>pkg/mod.py\<close>; \<open>/b\<close> holds
      \<open>pkg/__init__.py\<close> (12 bytes)\<close>
  "example_world =
     table_world
       [(''/a'', ''/a/pkg/__init__.py\<newline>/a/pkg/mod.py\<newline>''),
        (''/b'', ''/b/pkg/__init__.py\<newline>'')]
       [(''/a/pkg/__init__.py'', 0), (''/a/pkg/mod.py'', 40), (''/b/pkg/__init__.py'', 12)]"

definition example_directory :: SharedAnalysisDirectory where
  "example_directory = directory_of {''/a'', ''/b''}"

definition marker_world :: world where
  "marker_world =
     table_world
       [(''/x'', ''/x/lib/__init__.py\<newline>''), (''/y'', ''/y/lib/__init__.py\<newline>'')]
       [(''/x/lib/__init__.py'', 0), (''/y/lib/__init__.py'', 7)]"


definition sibling_world :: world where
  "sibling_world = (table_world [] [])
     \<lparr> getcwd := ''/foo'',
       realpath := (\<lambda>p. if p = ''../foo2/x.py'' then ''/foo2/x.py'' else p),
       path_exists := (\<lambda>p. p = ''../foo2/x.py'') \<rparr>"

definition tracking_directory :: SharedAnalysisDirectory where
  "tracking_directory = (directory_of {''/src''})
     \<lparr> local_configuration_root := Some ''/foo'',
       search_path := [''/lib$stubs''],
       symbolic_links := [''/src/a.py'' \<mapsto> ''/foo/a.py''] \<rparr>"

definition failing_world :: world where
  \<comment> \<open>\<open>find\<close> lists \<open>/ok\<close> and fails everywhere else\<close>
  "failing_world = table_world [(''/ok'', ''/ok/m.py\<newline>'')] [(''/ok/m.py'', 5)]"

definition stale_tree :: node where
  \<comment> \<open>an analysis directory left by an earlier run, beside an unrelated directory\<close>
  "stale_tree =
     Dir [(''.pyre'',
           Dir [(''shared_analysis_directory'',
                 Dir [(''.pyre.lock'', File 0),
                      (''old.py'', Symlink ''/z/old.py''),
                      (''.pyre_state'', Dir [(''saved'', File 3)]),
                      (''pkg'', Dir [(''x.py'', Symlink ''/z/pkg/x.py'')]),
                      (''notes.txt'', File 9)])]),
          (''home'', Dir [(''user'', Dir [])])]"

definition cleared_tree :: node where
  "cleared_tree =
     Dir [(''.pyre'',
           Dir [(''shared_analysis_directory'',
                 Dir [(''.pyre.lock'', File 0),
                      (''.pyre_state'', Dir [(''saved'', File 3)])])]),
          (''home'', Dir [(''user'', Dir [])])]"

section \<open>The merged mapping: the example of two source directories\<close>

text \<open>
  Claim C2.  Source directory \<open>/a\<close> contains \<open>pkg/__init__.py\<close> of size 0 and
  \<open>pkg/mod.py\<close>, and \<open>/b\<close>, iterated after \<open>/a\<close>, contains \<open>pkg/__init__.py\<close> of
  size 12.  The mapping built by the merge sends \<open>pkg/__init__.py\<close> to
  \<open>/b/pkg/__init__.py\<close> and \<open>pkg/mod.py\<close> to \<open>/a/pkg/mod.py\<close>, and the links the
  merge then creates under the analysis root point at these two files.
\<close>

theorem example_merge_nonempty_init_wins:
  "iteration_order example_world (source_directories example_directory) = [''/a'', ''/b''] \<and>
   st_size example_world ''/a/pkg/__init__.py'' = Inr 0 \<and>
   st_size example_world ''/b/pkg/__init__.py'' = Inr 12 \<and>
   merged_paths example_world example_directory =
     Inr [(''pkg/mod.py'', ''/a/pkg/mod.py''), (''pkg/__init__.py'', ''/b/pkg/__init__.py'')] \<and>
   merge example_world example_directory (Dir []) =
     Inr (Dir [(''.pyre'', Dir [(''shared_analysis_directory'',
            Dir [(''pkg'', Dir [(''mod.py'', Symlink ''/a/pkg/mod.py''),
                                (''__init__.py'', Symlink ''/b/pkg/__init__.py'')])])])])"
  by code_simp

section \<open>The merged mapping: where an entry comes from\<close>

lemma merge_candidate_Some:
  "merge_candidate w p rel = Inr (Some a) \<Longrightarrow>
     a = realpath w p \<and> isfile w a \<and> (suffix ''__init__.py'' rel \<longrightarrow> is_empty w a = Inr False)"
  by (auto simp: merge_candidate_def Let_def split: if_splits sum.splits bool.splits)


lemma loop_keeps:
  "merge_into_paths_loop w d paths ap = Inr m \<Longrightarrow> map_of ap rel = Some a \<Longrightarrow> map_of m rel = Some a"
proof (induction paths arbitrary: ap)
  case Nil
  then show ?case by simp
next
  case (Cons p paths)
  then show ?case
    by (fastforce split: sum.splits if_splits error.splits errno.splits option.splits simp: map_add_Some_iff)
qed


lemma loop_none:
  "merge_into_paths_loop w d paths ap = Inr m \<Longrightarrow> map_of ap rel = None \<Longrightarrow>
   (\<forall>p\<in>set paths. relpath (getcwd w) p d = Inr rel \<longrightarrow> (\<forall>a. merge_candidate w p rel \<noteq> Inr (Some a))) \<Longrightarrow>
   map_of m rel = None"
proof (induction paths arbitrary: ap)
  case Nil
  then show ?case by simp
next
  case (Cons p paths)
  then show ?case
    by (fastforce split: sum.splits if_splits error.splits errno.splits option.splits simp: map_add_def)
qed

lemma loop_adds:
  "merge_into_paths_loop w d paths ap = Inr m \<Longrightarrow> map_of ap rel = None \<Longrightarrow>
   p \<in> set paths \<Longrightarrow> relpath (getcwd w) p d = Inr rel \<Longrightarrow>
   merge_candidate w p rel = Inr (Some a) \<Longrightarrow>
   (\<forall>q\<in>set paths. relpath (getcwd w) q d = Inr rel \<longrightarrow> realpath w q = realpath w p) \<Longrightarrow>
   map_of m rel = Some a"
proof (induction paths arbitrary: ap)
  case Nil
  then show ?case by simp
next
  case (Cons q paths)
  have a: "a = realpath w p" using Cons.prems(5) by (simp add: merge_candidate_Some)
  have pne: "p \<noteq> []" using Cons.prems(4) by (auto simp: relpath_def)
  obtain r where r: "relpath (getcwd w) q d = Inr r"
    using Cons.prems(1) by (auto split: sum.splits)
  show ?case
  proof (cases "r = rel")
    case True
    have rq: "realpath w q = realpath w p" using Cons.prems(6) r True by simp
    have qne: "q \<noteq> []" using r by (auto simp: relpath_def)
    have cq: "merge_candidate w q rel = merge_candidate w p rel"
      using rq by (simp add: merge_candidate_def)
    have "merge_into_paths_loop w d paths (ap @ [(rel, a)]) = Inr m"
      using Cons.prems(1) r True qne Cons.prems(2) cq Cons.prems(5) by simp
    moreover have "map_of (ap @ [(rel, a)]) rel = Some a"
      using Cons.prems(2) by (simp add: map_add_def)
    ultimately show ?thesis by (rule loop_keeps)
  next
    case False
    then have pq: "p \<noteq> q" using r Cons.prems(4) by auto
    then have pin: "p \<in> set paths" using Cons.prems(3) by simp
    have uq: "\<forall>q\<in>set paths. relpath (getcwd w) q d = Inr rel \<longrightarrow> realpath w q = realpath w p"
      using Cons.prems(6) by simp
    obtain ap' where ap': "merge_into_paths_loop w d paths ap' = Inr m" "map_of ap' rel = None"
      using Cons.prems(1) r False Cons.prems(2)
      by (auto split: sum.splits if_splits error.splits errno.splits option.splits simp: map_add_def)
    show ?thesis
      by (rule Cons.IH [OF ap' pin Cons.prems(4) Cons.prems(5) uq])
  qed
qed

lemma merge_directories_append:
  "merge_directories w (xs @ ys) ap =
     (case merge_directories w xs ap of Inl e \<Rightarrow> Inl e | Inr ap' \<Rightarrow> merge_directories w ys ap')"
  by (induction xs arbitrary: ap) (auto split: sum.splits)


lemma dirs_keeps:
  "merge_directories w dirs ap = Inr m \<Longrightarrow> map_of ap rel = Some a \<Longrightarrow> map_of m rel = Some a"
proof (induction dirs arbitrary: ap)
  case Nil
  then show ?case by simp
next
  case (Cons d dirs)
  from Cons.prems(1) obtain paths ap' where
    l: "merge_into_paths_loop w d paths ap = Inr ap'" and
    r: "merge_directories w dirs ap' = Inr m"
    by (auto simp: merge_into_paths_def split: sum.splits)
  show ?case by (rule Cons.IH [OF r loop_keeps [OF l Cons.prems(2)]])
qed

lemma dirs_none:
  "merge_directories w dirs ap = Inr m \<Longrightarrow> map_of ap rel = None \<Longrightarrow>
   (\<forall>d\<in>set dirs. \<forall>paths. find_python_paths w d = Inr paths \<longrightarrow>
      (\<forall>p\<in>set paths. relpath (getcwd w) p d = Inr rel \<longrightarrow> (\<forall>a. merge_candidate w p rel \<noteq> Inr (Some a)))) \<Longrightarrow>
   map_of m rel = None"
proof (induction dirs arbitrary: ap)
  case Nil
  then show ?case by simp
next
  case (Cons d dirs)
  from Cons.prems(1) obtain paths ap' where
    f: "find_python_paths w d = Inr paths" and
    l: "merge_into_paths_loop w d paths ap = Inr ap'" and
    r: "merge_directories w dirs ap' = Inr m"
    by (auto simp: merge_into_paths_def split: sum.splits)
  have "map_of ap' rel = None"
    using loop_none [OF l Cons.prems(2)] Cons.prems(3) f by simp
  then show ?case using Cons.IH [OF r] Cons.prems(3) by simp
qed

text \<open>
  Claim C1, as the code has it.  Let the merge succeed, and let a source directory list a
  path with a given relative path whose real path is a regular file and not an empty
  \<open>__init__.py\<close> (\<open>merge_candidate\<close> accepts it).  If no directory iterated earlier
  lists an accepted path with that relative path, then the merged mapping sends the
  relative path to the real path of this one, whatever the directories iterated later
  list.  The position of the path in the listing of its directory plays no role: the
  listing is only required not to give the same relative path to two different files.
  The order is the one in which the set of source directories is iterated.
\<close>

theorem merge_first_eligible:
  assumes m: "merged_paths w s = Inr all_paths"
    and order: "iteration_order w (source_directories s) = earlier @ source_directory # later"
    and listing: "find_python_paths w source_directory = Inr paths"
    and p: "path \<in> set paths"
    and rel: "relpath (getcwd w) path source_directory = Inr relative"
    and cand: "merge_candidate w path relative = Inr (Some absolute)"
    and single: "\<forall>q\<in>set paths. relpath (getcwd w) q source_directory = Inr relative \<longrightarrow>
                   realpath w q = realpath w path"
    and first: "\<forall>d\<in>set earlier. \<forall>paths'. find_python_paths w d = Inr paths' \<longrightarrow>
                  (\<forall>q\<in>set paths'. relpath (getcwd w) q d = Inr relative \<longrightarrow>
                     (\<forall>a. merge_candidate w q relative \<noteq> Inr (Some a)))"
  shows "map_of all_paths relative = Some absolute \<and> absolute = realpath w path"
proof -
  from m order obtain ap1 where
    e: "merge_directories w earlier [] = Inr ap1" and
    r: "merge_directories w (source_directory # later) ap1 = Inr all_paths"
    by (auto simp: merged_paths_def merge_directories_append split: sum.splits)
  have n1: "map_of ap1 relative = None"
    by (rule dirs_none [OF e _ first]) simp
  from r listing obtain ap2 where
    l: "merge_into_paths_loop w source_directory paths ap1 = Inr ap2" and
    k: "merge_directories w later ap2 = Inr all_paths"
    by (auto simp: merge_into_paths_def split: sum.splits)
  have "map_of ap2 relative = Some absolute"
    by (rule loop_adds [OF l n1 p rel cand single])
  then have "map_of all_paths relative = Some absolute"
    by (rule dirs_keeps [OF k])
  then show ?thesis using cand by (simp add: merge_candidate_Some)
qed

theorem merge_first_eligible_witness:
  "merged_paths example_world example_directory =
     Inr [(''pkg/mod.py'', ''/a/pkg/mod.py''), (''pkg/__init__.py'', ''/b/pkg/__init__.py'')] \<and>
   iteration_order example_world (source_directories example_directory) = [''/a''] @ ''/b'' # [] \<and>
   merge_candidate example_world ''/a/pkg/__init__.py'' ''pkg/__init__.py'' = Inr None \<and>
   map_of [(''pkg/mod.py'', ''/a/pkg/mod.py''), (''pkg/__init__.py'', ''/b/pkg/__init__.py'')]
     ''pkg/__init__.py'' = Some ''/b/pkg/__init__.py''"
proof -
  have m: "merged_paths example_world example_directory =
     Inr [(''pkg/mod.py'', ''/a/pkg/mod.py''), (''pkg/__init__.py'', ''/b/pkg/__init__.py'')]"
    by code_simp
  have order: "iteration_order example_world (source_directories example_directory) = [''/a''] @ ''/b'' # []"
    by code_simp
  have la: "find_python_paths example_world ''/a'' = Inr [''/a/pkg/__init__.py'', ''/a/pkg/mod.py'']"
    by code_simp
  have lb: "find_python_paths example_world ''/b'' = Inr [''/b/pkg/__init__.py'']"
    by code_simp
  have rb: "relpath (getcwd example_world) ''/b/pkg/__init__.py'' ''/b'' = Inr ''pkg/__init__.py''"
    by code_simp
  have cb: "merge_candidate example_world ''/b/pkg/__init__.py'' ''pkg/__init__.py'' =
              Inr (Some ''/b/pkg/__init__.py'')"
    by code_simp
  have ca: "merge_candidate example_world ''/a/pkg/__init__.py'' ''pkg/__init__.py'' = Inr None"
    by code_simp
  have ra: "relpath (getcwd example_world) ''/a/pkg/mod.py'' ''/a'' = Inr ''pkg/mod.py''"
    by code_simp
  have single: "\<forall>q\<in>set [''/b/pkg/__init__.py''].
      relpath (getcwd example_world) q ''/b'' = Inr ''pkg/__init__.py'' \<longrightarrow>
      realpath example_world q = realpath example_world ''/b/pkg/__init__.py''"
    by simp
  have first: "\<forall>d\<in>set [''/a'']. \<forall>paths'. find_python_paths example_world d = Inr paths' \<longrightarrow>
      (\<forall>q\<in>set paths'. relpath (getcwd example_world) q d = Inr ''pkg/__init__.py'' \<longrightarrow>
         (\<forall>a. merge_candidate example_world q ''pkg/__init__.py'' \<noteq> Inr (Some a)))"
    using la ca ra by auto
  from merge_first_eligible [OF m order lb _ rb cb single first] m order ca
  show ?thesis by simp
qed

text \<open>
  The claim C1 as it is stated does not hold: in \<open>marker_world\<close> both \<open>/x\<close> and \<open>/y\<close>
  list \<open>lib/__init__.py\<close>, \<open>/x\<close> is iterated first, and the merged mapping sends
  \<open>lib/__init__.py\<close> to the file of \<open>/y\<close>, because the file of \<open>/x\<close> is empty.
\<close>

theorem merge_earliest_listing_counterexample:
  "iteration_order marker_world (source_directories (directory_of {''/x'', ''/y''})) = [''/x'', ''/y''] \<and>
   find_python_paths marker_world ''/x'' = Inr [''/x/lib/__init__.py''] \<and>
   relpath (getcwd marker_world) ''/x/lib/__init__.py'' ''/x'' = Inr ''lib/__init__.py'' \<and>
   realpath marker_world ''/x/lib/__init__.py'' = ''/x/lib/__init__.py'' \<and>
   find_python_paths marker_world ''/y'' = Inr [''/y/lib/__init__.py''] \<and>
   relpath (getcwd marker_world) ''/y/lib/__init__.py'' ''/y'' = Inr ''lib/__init__.py'' \<and>
   merged_paths marker_world (directory_of {''/x'', ''/y''}) =
     Inr [(''lib/__init__.py'', ''/y/lib/__init__.py'')]"
  by code_simp



section \<open>Translating reported changes\<close>

lemma process_updated_files_loop_acc:
  "process_updated_files_loop w s paths acc =
     acc @ concat (map (\<lambda>path. case symbolic_links s path of
                                  Some link \<Rightarrow> [link]
                                | None \<Rightarrow> if is_tracked w s path then [path] else []) paths)"
  by (induction paths arbitrary: acc) (auto split: option.splits)

lemma is_tracked_boundary:
  "is_tracked w s path \<longleftrightarrow>
     (\<exists>directory\<in>set (tracked_directories w s). \<exists>rest. path = rstrip_sep directory @ ''/'' @ rest)"
  by (auto simp: is_tracked_def list_ex_iff prefix_def)

text \<open>
  Claim C3.  \<open>process_updated_files\<close> goes through the input once and emits, for a path
  that is a key of the reverse index, the link stored under it; for a path that is not a
  key but consists of a tracked directory (without trailing separators), one separator
  and a rest, the path itself; and nothing for any other path.  So every input path
  accounts for at most one output entry, and no entry is invented.  In the example that
  follows the tracked directories are \<open>/foo\<close> and \<open>/lib/stubs\<close>, and the path
  \<open>/foo2/x.py\<close> is dropped.
\<close>

theorem process_updated_files_translation:
  "process_updated_files w s paths =
     concat (map (\<lambda>path. case symbolic_links s path of
                            Some link \<Rightarrow> [link]
                          | None \<Rightarrow>
                              if (\<exists>directory\<in>set (tracked_directories w s).
                                    \<exists>rest. path = rstrip_sep directory @ ''/'' @ rest)
                              then [path] else []) paths)"
  by (simp add: process_updated_files_def process_updated_files_loop_acc is_tracked_boundary
        cong: option.case_cong)

theorem process_updated_files_translation_witness:
  "tracked_directories (table_world [] []) tracking_directory = [''/foo'', ''/lib/stubs''] \<and>
   process_updated_files (table_world [] []) tracking_directory
     [''/src/a.py'', ''/foo/new.py'', ''/foo2/x.py'', ''/lib/stubs/t.pyi'', ''/elsewhere/y.py''] =
   [''/foo/a.py'', ''/foo/new.py'', ''/lib/stubs/t.pyi'']"
proof -
  have t: "tracked_directories (table_world [] []) tracking_directory = [''/foo'', ''/lib/stubs'']"
    by code_simp
  have l: "symbolic_links tracking_directory = [''/src/a.py'' \<mapsto> ''/foo/a.py'']"
    by (simp add: tracking_directory_def)
  have r: "rstrip_sep ''/foo'' = ''/foo''" "rstrip_sep ''/lib/stubs'' = ''/lib/stubs''"
    by code_simp+
  show ?thesis
    using process_updated_files_translation [of "table_world [] []" tracking_directory
      "[''/src/a.py'', ''/foo/new.py'', ''/foo2/x.py'', ''/lib/stubs/t.pyi'', ''/elsewhere/y.py'']"]
    by (simp add: t l r)
qed

section \<open>A failure of the File Lister\<close>

lemma find_python_paths_failure:
  "find_paths_with_extensions w d [''py'', ''pyi''] = Inl CalledProcessError \<Longrightarrow>
   find_python_paths w d = Inl (EnvironmentException listing_failure_message)"
  by (simp add: find_python_paths_def listing_failure_message_def)

lemma makedirs_at_error:
  "makedirs_at cs n = Inl e \<Longrightarrow> \<exists>k. e = OSError k"
  "makedirs_entry c cs es = Inl e \<Longrightarrow> \<exists>k. e = OSError k"
  by (induction cs n and c cs es arbitrary: e and e rule: makedirs_at_makedirs_entry.induct)
     (auto split: sum.splits if_splits)

lemma os_makedirs_error:
  "os_makedirs cwd fs path = Inl e \<Longrightarrow> \<exists>k. e = OSError k"
  by (auto simp: os_makedirs_def dest: makedirs_at_error split: if_splits)

lemma acquire_lock_environment_exception:
  assumes "open_for_writing cwd fs path = Inr fs2 \<or> open_for_writing cwd fs path = Inl (OSError ENOENT)"
    and "\<And>fs'. body fs' = Inl (EnvironmentException m)"
  shows "acquire_lock cwd fs path body = Inl (EnvironmentException m)"
  using assms by (auto simp: acquire_lock_def)

text \<open>
  Claim C4.  When \<open>find\<close> exits with an error (\<open>CalledProcessError\<close>),
  \<open>_compute_symbolic_link_mapping\<close> returns the empty index and two warnings in the log.
  When it does so for a source directory that the merge reaches (the directories iterated
  before it having been merged), \<open>_merge_into_paths\<close> and \<open>_merge\<close> fail with an
  \<open>EnvironmentException\<close>, and so does the call of \<open>prepare\<close> that got as far as the
  merge: the source directories were resolved, the lock file was opened (or its directory
  was missing, and the merge ran without a lock) and the directory was cleared.
\<close>

theorem listing_failure_handling:
  assumes reverse: "find_paths_with_extensions w directory extensions = Inl CalledProcessError"
    and listing: "find_paths_with_extensions w d [''py'', ''pyi''] = Inl CalledProcessError"
    and resolved: "resolve_source_directories w s = Inr s'"
    and order: "iteration_order w (source_directories s') = earlier @ d # later"
    and before: "merge_directories w earlier [] = Inr all_paths"
    and made: "fs1 = (case os_makedirs (getcwd w) fs (get_root w s) of Inr fs' \<Rightarrow> fs' | Inl e \<Rightarrow> fs)"
    and locked: "open_for_writing (getcwd w) fs1 (join (get_root w s) ''.pyre.lock'') = Inr fs2 \<or>
                 open_for_writing (getcwd w) fs1 (join (get_root w s) ''.pyre.lock'') =
                   Inl (OSError ENOENT) \<and> fs2 = fs1"
    and cleared: "clear w s' fs2 = Inr fs3"
  shows "compute_symbolic_link_mapping w directory extensions =
           Inr (Map.empty,
                [Warning (''Exception encountered trying to find source files '' @
                          ''in the analysis directory: `%s`'') [CalledProcessError],
                 Warning ''Starting with an empty set of tracked files.'' []]) \<and>
         merge_into_paths w d all_paths = Inl (EnvironmentException listing_failure_message) \<and>
         merge w s' fs3 = Inl (EnvironmentException listing_failure_message) \<and>
         prepare w s fs = Inl (EnvironmentException listing_failure_message)"
proof -
  have 1: "compute_symbolic_link_mapping w directory extensions =
           Inr (Map.empty,
                [Warning (''Exception encountered trying to find source files '' @
                          ''in the analysis directory: `%s`'') [CalledProcessError],
                 Warning ''Starting with an empty set of tracked files.'' []])"
    using reverse by (simp add: compute_symbolic_link_mapping_def)
  have 2: "merge_into_paths w d ap = Inl (EnvironmentException listing_failure_message)" for ap
    using find_python_paths_failure [OF listing] by (simp add: merge_into_paths_def)
  have 3: "merged_paths w s' = Inl (EnvironmentException listing_failure_message)"
    using order before 2 by (simp add: merged_paths_def merge_directories_append)
  have 4: "merge w s' t = Inl (EnvironmentException listing_failure_message)" for t
    using 3 by (simp add: merge_def)
  have mk: "(case os_makedirs (getcwd w) fs (get_root w s) of
               Inl (OSError n) \<Rightarrow> Inr fs | Inl e \<Rightarrow> Inl e | Inr fs' \<Rightarrow> Inr fs') = Inr fs1"
    using made by (auto split: sum.splits dest: os_makedirs_error)
  have body: "(case clear w s' fs2 of Inl e \<Rightarrow> Inl e | Inr fs3 \<Rightarrow> merge w s' fs3) =
                Inl (EnvironmentException listing_failure_message)"
    using cleared 4 by simp
  have lock: "acquire_lock (getcwd w) fs1 (join (get_root w s) ''.pyre.lock'')
                (\<lambda>fs2. case clear w s' fs2 of Inl e \<Rightarrow> Inl e | Inr fs3 \<Rightarrow> merge w s' fs3) =
              Inl (EnvironmentException listing_failure_message)"
    using locked body by (auto simp: acquire_lock_def)
  have 5: "prepare w s fs = Inl (EnvironmentException listing_failure_message)"
    using resolved mk lock by (simp add: prepare_def Let_def)
  from 1 2 4 5 show ?thesis by blast
qed


theorem listing_failure_handling_witness:
  "find_paths_with_extensions failing_world ''/zz'' [''py'', ''pyi''] = Inl CalledProcessError \<and>
   compute_symbolic_link_mapping failing_world ''/zz'' [''py'', ''pyi''] =
     Inr (Map.empty,
          [Warning (''Exception encountered trying to find source files '' @
                    ''in the analysis directory: `%s`'') [CalledProcessError],
           Warning ''Starting with an empty set of tracked files.'' []]) \<and>
   prepare failing_world (directory_of {''/ok'', ''/zz''}) (Dir []) =
     Inl (EnvironmentException listing_failure_message)"
proof -
  let ?w = failing_world and ?s = "directory_of {''/ok'', ''/zz''}"
  let ?fs1 = "Dir [(''.pyre'', Dir [(''shared_analysis_directory'', Dir [])])]"
  let ?fs2 = "Dir [(''.pyre'', Dir [(''shared_analysis_directory'', Dir [(''.pyre.lock'', File 0)])])]"
  have listing: "find_paths_with_extensions ?w ''/zz'' [''py'', ''pyi''] = Inl CalledProcessError"
    by code_simp
  have resolved: "resolve_source_directories ?w ?s = Inr ?s"
    by (simp add: resolve_source_directories_def directory_of_def)
  have order: "iteration_order ?w (source_directories ?s) = [''/ok''] @ ''/zz'' # []"
    by code_simp
  have before: "merge_directories ?w [''/ok''] [] = Inr [(''m.py'', ''/ok/m.py'')]"
    by code_simp
  have made: "?fs1 = (case os_makedirs (getcwd ?w) (Dir []) (get_root ?w ?s) of
                        Inr fs' \<Rightarrow> fs' | Inl e \<Rightarrow> Dir [])"
    by code_simp
  have "open_for_writing (getcwd ?w) ?fs1 (join (get_root ?w ?s) ''.pyre.lock'') = Inr ?fs2"
    by code_simp
  then have locked:
    "open_for_writing (getcwd ?w) ?fs1 (join (get_root ?w ?s) ''.pyre.lock'') = Inr ?fs2 \<or>
     open_for_writing (getcwd ?w) ?fs1 (join (get_root ?w ?s) ''.pyre.lock'') =
       Inl (OSError ENOENT) \<and> ?fs2 = ?fs1"
    by (rule disjI1)
  have cleared: "clear ?w ?s ?fs2 = Inr ?fs2"
    by code_simp
  from listing_failure_handling [OF listing listing resolved order before made locked cleared] listing
  show ?thesis by blast
qed

section \<open>Resolving the source directories\<close>

text \<open>
  Claim C6.  \<open>_resolve_source_directories\<close> returns normally only with a non-empty set of
  source directories, and so \<open>prepare\<close> only ever merges a non-empty set.  When no
  source directory is configured and either no target is configured or the resolver (and the
  translation of its result) yields no directory, both fail with the
  \<open>EnvironmentException\<close> "No targets or source directories to analyze."
\<close>

theorem no_source_directories_is_an_error:
  "(resolve_source_directories w s = Inr s' \<longrightarrow> source_directories s' \<noteq> {}) \<and>
   (prepare w s fs = Inr (s', fs') \<longrightarrow> source_directories s' \<noteq> {}) \<and>
   (source_directories s = {} \<and>
    (targets s = {} \<or>
     (\<exists>new. generate_source_directories w (targets s) (build s) (prompt s) = Inr new \<and>
            (case original_directory s of
               None \<Rightarrow> Inr new
             | Some d \<Rightarrow> translate_paths w new d) = Inr {})) \<longrightarrow>
    resolve_source_directories w s = Inl (EnvironmentException no_sources_message) \<and>
    prepare w s fs = Inl (EnvironmentException no_sources_message))"
proof (intro conjI impI)
  show 1: "source_directories s' \<noteq> {}" if "resolve_source_directories w s = Inr s'" for s'
    using that
    by (auto simp: resolve_source_directories_def split: if_splits sum.splits option.splits)
  show "source_directories s' \<noteq> {}" if "prepare w s fs = Inr (s', fs')"
  proof -
    from that have "resolve_source_directories w s = Inr s'"
      by (auto simp: prepare_def Let_def split: sum.splits)
    then show ?thesis by (rule 1)
  qed
  assume e: "source_directories s = {} \<and>
    (targets s = {} \<or>
     (\<exists>new. generate_source_directories w (targets s) (build s) (prompt s) = Inr new \<and>
            (case original_directory s of
               None \<Rightarrow> Inr new
             | Some d \<Rightarrow> translate_paths w new d) = Inr {}))"
  then show r: "resolve_source_directories w s = Inl (EnvironmentException no_sources_message)"
    by (auto simp: resolve_source_directories_def no_sources_message_def split: option.splits)
  then show "prepare w s fs = Inl (EnvironmentException no_sources_message)"
    by (simp add: prepare_def)
qed

theorem no_source_directories_is_an_error_witness:
  "resolve_source_directories example_world example_directory = Inr example_directory \<and>
   source_directories example_directory \<noteq> {} \<and>
   prepare (table_world [] []) ((directory_of {})\<lparr>targets := {''//project:library''}\<rparr>) (Dir []) =
     Inl (EnvironmentException no_sources_message) \<and>
   prepare (table_world [] []) (directory_of {}) (Dir []) =
     Inl (EnvironmentException no_sources_message)"
proof -
  let ?w = "table_world [] []" and ?t = "(directory_of {})\<lparr>targets := {''//project:library''}\<rparr>"
  have r: "resolve_source_directories example_world example_directory = Inr example_directory"
    by (simp add: resolve_source_directories_def example_directory_def directory_of_def)
  have e1: "source_directories ?t = {}" "source_directories (directory_of {}) = {}"
     "targets (directory_of {}) = {}"
    by (simp_all add: directory_of_def)
  have g: "generate_source_directories ?w (targets ?t) (build ?t) (prompt ?t) = Inr {}"
    by (simp add: table_world_def)
  have o: "original_directory ?t = None"
    by (simp add: directory_of_def)
  from no_source_directories_is_an_error
         [where w = example_world and s = example_directory and s' = example_directory] r
  have 1: "source_directories example_directory \<noteq> {}" by blast
  from no_source_directories_is_an_error [where w = ?w and s = ?t and fs = "Dir []"] e1 g o
  have 2: "prepare ?w ?t (Dir []) = Inl (EnvironmentException no_sources_message)"
    by simp
  from no_source_directories_is_an_error [where w = ?w and s = "directory_of {}" and fs = "Dir []"] e1
  have 3: "prepare ?w (directory_of {}) (Dir []) = Inl (EnvironmentException no_sources_message)"
    by simp
  from r 1 2 3 show ?thesis by blast
qed

section \<open>Path Translator: two inputs the code mishandles\<close>

text \<open>
  Claim C7 does not hold for the code: \<open>translate_paths\<close> decides whether
  \<open>original_directory\<close> lies in the working directory with \<open>str.startswith\<close>.  With
  the working directory \<open>/foo\<close> and the original directory \<open>/foo2\<close>, which is not
  inside \<open>/foo\<close>, the prefix is \<open>../foo2\<close> and the path \<open>x.py\<close> is rewritten.
\<close>

theorem translate_paths_sibling_directory:
  "getcwd sibling_world = ''/foo'' \<and>
   relpath (getcwd sibling_world) ''/foo2'' (getcwd sibling_world) = Inr ''../foo2'' \<and>
   translate_paths sibling_world {''x.py''} ''/foo2'' = Inr {''/foo2/x.py''}"
  by code_simp

lemma translate_paths_not_prefix:
  "\<not> prefix (getcwd w) original \<Longrightarrow> translate_paths w paths original = Inr paths"
  by (simp add: translate_paths_def)

lemma dirname_double_slash: "dirname ''//'' = ''//''"
  by code_simp

lemma find_root_loop_stuck_aux:
  assumes "find_root_loop w t c = Some y"
  shows "c = ''//'' \<longrightarrow> isfile w (join ''//'' t)"
  by (rule find_root_loop.raw_induct
        [where P = "\<lambda>w t c y. c = ''//'' \<longrightarrow> isfile w (join ''//'' t)", OF _ assms])
     (auto simp: Let_def dirname_double_slash split: if_splits)

lemma find_root_loop_stuck:
  "\<not> isfile w (join ''//'' t) \<Longrightarrow> find_root_loop w t ''//'' = None"
  using find_root_loop_stuck_aux [of w t "''//''"] by (cases "find_root_loop w t ''//''") auto

text \<open>
  Claim C8 does not hold for the code: \<open>os.path.abspath\<close> keeps exactly two leading
  slashes, \<open>os.path.dirname\<close> maps \<open>//\<close> to itself, and the loop of \<open>find_root\<close>
  only stops at \<open>/\<close>.  Started at \<open>//srv/project\<close> with no marker file on the way, it
  never returns.
\<close>

theorem find_root_double_slash_never_returns:
  "find_root (table_world [] []) ''//srv/project'' ''.pyre_configuration'' = None"
proof -
  let ?w = "table_world [] []"
  have a: "abspath (getcwd ?w) ''//srv/project'' = ''//srv/project''" by code_simp
  have d1: "dirname ''//srv/project'' = ''//srv''" by code_simp
  have d2: "dirname ''//srv'' = ''//''" by code_simp
  have nf: "\<not> isfile ?w p" for p by (simp add: table_world_def)
  have "find_root ?w ''//srv/project'' ''.pyre_configuration'' =
        find_root_loop ?w ''.pyre_configuration'' ''//srv/project''"
    by (simp only: find_root_def a)
  also have "\<dots> = find_root_loop ?w ''.pyre_configuration'' ''//srv''"
    by (subst find_root_loop.simps) (simp add: nf d1 Let_def)
  also have "\<dots> = find_root_loop ?w ''.pyre_configuration'' ''//''"
    by (subst find_root_loop.simps) (simp add: nf d2 Let_def)
  also have "\<dots> = None"
    by (rule find_root_loop_stuck) (rule nf)
  finally show ?thesis .
qed

section \<open>Taint-annotation specification types: equality and hash\<close>

text \<open>
  Two specifications with equal fields compare equal and are hashed alike whatever the
  order in which the elements of their sets were inserted, and the hash is a number when no
  field is an empty set.
\<close>

lemma sort_remdups_set_eq:
  fixes xs ys :: "string list"
  assumes "set xs = set ys"
  shows "sort (remdups xs) = sort (remdups ys)"
proof -
  have "sort (remdups xs) = sorted_list_of_set (set xs)"
    by (rule sorted_list_of_set_sort_remdups [symmetric])
  also have "\<dots> = sorted_list_of_set (set ys)"
    by (simp only: assms)
  also have "\<dots> = sort (remdups ys)"
    by (rule sorted_list_of_set_sort_remdups)
  finally show ?thesis .
qed

lemma hash_field_order_independent:
  "field_eq a b \<Longrightarrow> hash_field a = hash_field b"
  by (cases a; cases b) (auto intro: sort_remdups_set_eq)

lemma whitelist_hash_order_independent:
  "whitelist_eq a b \<Longrightarrow> whitelist_hash h a = whitelist_hash h b"
  using hash_field_order_independent [of "parameter_type a" "parameter_type b"]
    hash_field_order_independent [of "parameter_name a" "parameter_name b"]
  by (auto simp: whitelist_eq_def whitelist_hash_def split: sum.splits)

lemma whitelist_hash_defined:
  "parameter_type a \<noteq> Some [] \<Longrightarrow> parameter_name a \<noteq> Some [] \<Longrightarrow> \<exists>n. whitelist_hash h a = Inr n"
  by (cases "parameter_type a"; cases "parameter_name a") (auto simp: whitelist_hash_def)

text \<open>
  Claim C9 does not hold for the code when a field is the empty set: \<open>x and
  tuple(sorted(x))\<close> leaves the empty set in the tuple, and \<open>hash\<close> raises
  \<open>TypeError\<close>, so the specification has no hash, although it is equal to itself.
\<close>

theorem whitelist_hash_empty_set:
  "whitelist_eq \<lparr>parameter_type = Some [], parameter_name = None\<rparr>
                \<lparr>parameter_type = Some [], parameter_name = None\<rparr> \<and>
   whitelist_hash h \<lparr>parameter_type = Some [], parameter_name = None\<rparr> =
     Inl (TypeError unhashable_set_message)"
  by (auto simp: whitelist_eq_def whitelist_hash_def split: sum.splits)

section \<open>Clearing the analysis directory\<close>

lemma normpath_comps_append:
  "normpath_comps b (xs @ ys) acc = normpath_comps b ys (normpath_comps b xs acc)"
  by (induction xs arbitrary: acc) auto

lemma split_chr_not_Nil: "split_chr c xs \<noteq> []"
  by (induction xs) (auto split: list.splits)

lemma split_chr_sep: "split_chr c (xs @ c # ys) = split_chr c xs @ split_chr c ys"
  by (induction xs) (auto split: list.splits simp: split_chr_not_Nil)

lemma split_chr_no_sep: "c \<notin> set xs \<Longrightarrow> split_chr c xs = [xs]"
  by (induction xs) auto

lemma normpath_comps_entry_name:
  "entry_name name \<Longrightarrow> normpath_comps True [name] acc = acc @ [name]"
  by (auto simp: entry_name_def)

lemma comps_of_child:
  assumes "entry_name name"
  shows "normpath_comps True (split_chr CHR ''/'' (r @ ''/'' @ name)) [] =
         normpath_comps True (split_chr CHR ''/'' r) [] @ [name]"
proof -
  have "split_chr CHR ''/'' (r @ ''/'' @ name) = split_chr CHR ''/'' r @ [name]"
    using assms by (simp add: split_chr_sep split_chr_no_sep entry_name_def)
  then have "normpath_comps True (split_chr CHR ''/'' (r @ ''/'' @ name)) [] =
             normpath_comps True [name] (normpath_comps True (split_chr CHR ''/'' r) [])"
    by (simp only: normpath_comps_append)
  also have "\<dots> = normpath_comps True (split_chr CHR ''/'' r) [] @ [name]"
    by (rule normpath_comps_entry_name [OF assms])
  finally show ?thesis .
qed

lemma comps_of_trailing_sep:
  "normpath_comps True (split_chr CHR ''/'' (r @ ''/'')) [] =
   normpath_comps True (split_chr CHR ''/'' r) []"
  by (simp add: split_chr_sep normpath_comps_append)

lemma comps_of_join:
  assumes "entry_name name" "r \<noteq> []"
  shows "normpath_comps True (split_chr CHR ''/'' (join r name)) [] =
         normpath_comps True (split_chr CHR ''/'' r) [] @ [name]"
proof (cases "suffix ''/'' r")
  case True
  then obtain r' where r': "r = r' @ ''/''" by (auto simp: suffix_def)
  have n: "\<not> prefix ''/'' name" using assms(1) by (auto simp: entry_name_def prefix_def)
  have "join r name = r' @ ''/'' @ name" using True n r' by (simp add: join_def)
  then show ?thesis
    using comps_of_child [OF assms(1), of r'] comps_of_trailing_sep [of r'] r' by simp
next
  case False
  have n: "\<not> prefix ''/'' name" using assms(1) by (auto simp: entry_name_def prefix_def)
  have "join r name = r @ ''/'' @ name" using False n assms(2) by (simp add: join_def)
  then show ?thesis using comps_of_child [OF assms(1), of r] by simp
qed

lemma join_assoc_entry:
  assumes "entry_name name" "root \<noteq> []" "\<not> isabs root"
  shows "join cwd (join root name) = join (join cwd root) name \<and> join cwd root \<noteq> []"
proof -
  have n: "\<not> prefix ''/'' name" using assms(1) by (auto simp: entry_name_def prefix_def)
  have r: "\<not> prefix ''/'' root" using assms(3) by (simp add: isabs_def)
  have jr: "\<not> prefix ''/'' (join root name)"
    using r n assms(2) by (cases root) (auto simp: join_def)
  have s: "suffix ''/'' (x @ root) \<longleftrightarrow> suffix ''/'' root" for x
    using assms(2) by (metis append_is_Nil_conv last_appendR suffix_def suffix_snoc snoc_eq_iff_butlast
          append_butlast_last_id last_snoc)
  show ?thesis
    using n r jr assms(2) s [of cwd] s [of "cwd @ ''/''"]
    by (auto simp: join_def)
qed

lemma resolve_join:
  assumes "entry_name name" "root \<noteq> []"
  shows "resolve cwd (join root name) = resolve cwd root @ [name]"
proof (cases "isabs root")
  case True
  have n: "\<not> prefix ''/'' name" using assms(1) by (auto simp: entry_name_def prefix_def)
  have "isabs (join root name)"
    using True n assms(2) by (cases root) (auto simp: join_def isabs_def)
  then show ?thesis
    using True comps_of_join [OF assms] by (simp add: resolve_def)
next
  case False
  have n: "\<not> prefix ''/'' name" using assms(1) by (auto simp: entry_name_def prefix_def)
  have "\<not> isabs (join root name)"
    using False n assms(2) by (cases root) (auto simp: join_def isabs_def)
  then show ?thesis
    using False join_assoc_entry [OF assms False, of cwd]
      comps_of_join [OF assms(1), of "join cwd root"]
    by (simp add: resolve_def)
qed


lemma lookup_entry_map_of: "lookup_entry es c [] = map_of es c"
  by (induction es) auto

lemma lookup_snoc:
  "lookup n cs = Some (Dir es) \<Longrightarrow> lookup n (cs @ [c]) = map_of es c"
  "lookup_entry ds d cs = Some (Dir es) \<Longrightarrow> lookup_entry ds d (cs @ [c]) = map_of es c"
  by (induction n cs and ds d cs rule: lookup_lookup_entry.induct)
     (auto simp: lookup_entry_map_of split: if_splits)

lemma lookup_modify_dir:
  "lookup n cs = Some (Dir es) \<Longrightarrow> lookup (modify_dir cs f n) cs = Some (Dir (f es))"
  "lookup_entry ds d cs = Some (Dir es) \<Longrightarrow>
     lookup_entry (modify_entry d cs f ds) d cs = Some (Dir (f es))"
  by (induction n cs and ds d cs rule: lookup_lookup_entry.induct)
     (auto split: if_splits)

lemma modify_dir_compose:
  "modify_dir cs f (modify_dir cs g n) = modify_dir cs (f \<circ> g) n"
  "modify_entry d cs f (modify_entry d cs g ds) = modify_entry d cs (f \<circ> g) ds"
  by (induction cs g n and d cs g ds rule: modify_dir_modify_entry.induct) auto

lemma modify_dir_same:
  "lookup n cs = Some (Dir es) \<Longrightarrow> f es = es \<Longrightarrow> modify_dir cs f n = n"
  "lookup_entry ds d cs = Some (Dir es) \<Longrightarrow> f es = es \<Longrightarrow> modify_entry d cs f ds = ds"
  by (induction n cs and ds d cs rule: lookup_lookup_entry.induct)
     (auto split: if_splits)

lemma modify_dir_agree:
  "lookup n cs = Some (Dir es) \<Longrightarrow> f es = g es \<Longrightarrow> modify_dir cs f n = modify_dir cs g n"
  "lookup_entry ds d cs = Some (Dir es) \<Longrightarrow> f es = g es \<Longrightarrow>
     modify_entry d cs f ds = modify_entry d cs g ds"
  by (induction n cs and ds d cs rule: lookup_lookup_entry.induct)
     (auto split: if_splits)

lemma modify_dir_frame:
  "\<not> prefix cs p \<Longrightarrow> \<not> prefix p cs \<Longrightarrow> lookup (modify_dir cs f n) p = lookup n p"
  "\<not> prefix (d # cs) (c # p) \<Longrightarrow> \<not> prefix (c # p) (d # cs) \<Longrightarrow>
     lookup_entry (modify_entry d cs f ds) c p = lookup_entry ds c p"
proof (induction cs f n and d cs f ds arbitrary: p and p c rule: modify_dir_modify_entry.induct)
  case (4 c cs f es)
  then show ?case by (cases p) auto
next
  case (8 c cs f k v es)
  then show ?case by (auto split: if_splits)
qed auto


lemma join_entry_not_Nil: "entry_name name \<Longrightarrow> join root name \<noteq> []"
  by (auto simp: join_def entry_name_def)

lemma remove_if_exists_child:
  assumes dir: "lookup fs (resolve cwd root) = Some (Dir es)"
    and name: "entry_name name" and root: "root \<noteq> []"
  shows "remove_if_exists cwd fs (join root name) =
           Inr (modify_dir (resolve cwd root) (AList.delete name) fs)"
proof -
  let ?r = "resolve cwd root" and ?p = "join root name"
  let ?fs' = "modify_dir ?r (AList.delete name) fs"
  have p: "?p \<noteq> []" by (rule join_entry_not_Nil [OF name])
  have rp: "resolve cwd ?p = ?r @ [name]" by (rule resolve_join [OF name root])
  have l: "lookup fs (?r @ [name]) = map_of es name" by (rule lookup_snoc(1) [OF dir])
  have d: "delete_entry (?r @ [name]) t = modify_dir ?r (AList.delete name) t" for t
    by (simp add: delete_entry_def)
  have l': "lookup ?fs' (?r @ [name]) = None"
    using lookup_snoc(1) [OF lookup_modify_dir(1) [OF dir, of "AList.delete name"], of name]
    by (simp add: AList.delete_conv')
  show ?thesis
  proof (cases "map_of es name")
    case None
    then have "name \<notin> fst ` set es" by (simp add: map_of_eq_None_iff)
    then have "?fs' = fs" using modify_dir_same(1) [OF dir, of "AList.delete name"] by simp
    then show ?thesis using None p rp l
      by (simp add: remove_if_exists_def os_remove_def shutil_rmtree_def)
  next
    case (Some n)
    show ?thesis
    proof (cases n)
      case (File sz)
      then show ?thesis using Some p rp l l' d
        by (simp add: remove_if_exists_def os_remove_def shutil_rmtree_def)
    next
      case (Symlink target)
      then show ?thesis using Some p rp l l' d
        by (simp add: remove_if_exists_def os_remove_def shutil_rmtree_def)
    next
      case (Dir ds)
      then show ?thesis using Some p rp l d
        by (simp add: remove_if_exists_def os_remove_def shutil_rmtree_def)
    qed
  qed
qed

lemma clear_loop_result:
  assumes "lookup fs (resolve cwd root) = Some (Dir es)"
    and "\<forall>name\<in>set names. prefix ''.pyre'' name \<or> entry_name name"
    and "root \<noteq> []"
  shows "clear_loop cwd root names fs =
           Inr (modify_dir (resolve cwd root)
                  (filter (\<lambda>(name, n). prefix ''.pyre'' name \<or> name \<notin> set names)) fs)"
  using assms
proof (induction names arbitrary: fs es)
  case Nil
  then show ?case using modify_dir_same(1) [OF Nil(1), of "\<lambda>a. a"] by simp
next
  case (Cons name names)
  let ?r = "resolve cwd root"
  show ?case
  proof (cases "prefix ''.pyre'' name")
    case True
    have "(\<lambda>(k, n). prefix ''.pyre'' k \<or> k \<notin> set (name # names)) =
          (\<lambda>(k, n :: node). prefix ''.pyre'' k \<or> k \<notin> set names)"
      using True by (auto simp: fun_eq_iff)
    then show ?thesis using True Cons.IH [OF Cons.prems(1) _ Cons.prems(3)] Cons.prems(2) by simp
  next
    case False
    then have en: "entry_name name" using Cons.prems(2) by simp
    let ?fs' = "modify_dir ?r (AList.delete name) fs"
    have step: "remove_if_exists cwd fs (join root name) = Inr ?fs'"
      by (rule remove_if_exists_child [OF Cons.prems(1) en Cons.prems(3)])
    have dir': "lookup ?fs' ?r = Some (Dir (AList.delete name es))"
      by (rule lookup_modify_dir(1) [OF Cons.prems(1)])
    have "clear_loop cwd root names ?fs' =
            Inr (modify_dir ?r (filter (\<lambda>(k, n). prefix ''.pyre'' k \<or> k \<notin> set names)) ?fs')"
      using Cons.IH [OF dir' _ Cons.prems(3)] Cons.prems(2) by simp
    moreover have "filter (\<lambda>(k, n). prefix ''.pyre'' k \<or> k \<notin> set names) \<circ> AList.delete name =
                   filter (\<lambda>(k, n :: node). prefix ''.pyre'' k \<or> k \<notin> set (name # names))"
      using False by (auto simp: fun_eq_iff AList.delete_eq intro!: filter_cong)
    ultimately show ?thesis using False step by (simp add: modify_dir_compose)
  qed
qed

lemma get_root_not_Nil: "get_root w s \<noteq> []"
  by (auto simp: get_root_def join_def Let_def split: option.splits)

lemma remove_if_exists_absent:
  "path = [] \<or> lookup fs (resolve cwd path) = None \<Longrightarrow> remove_if_exists cwd fs path = Inr fs"
  by (auto simp: remove_if_exists_def os_remove_def shutil_rmtree_def)

lemma clear_result:
  assumes root: "lookup fs (resolve (getcwd w) (get_root w s)) = Some (Dir es)"
    and names: "\<forall>name\<in>fst ` set es. prefix ''.pyre'' name \<or> entry_name name"
  shows "clear w s fs =
           Inr (modify_dir (resolve (getcwd w) (get_root w s))
                  (filter (\<lambda>(name, n). prefix ''.pyre'' name)) fs)"
proof -
  have l: "os_listdir (getcwd w) fs (get_root w s) = Inr (map fst es)"
    using root by (simp add: os_listdir_def get_root_not_Nil)
  have n: "\<forall>name\<in>set (map fst es). prefix ''.pyre'' name \<or> entry_name name"
    using names by simp
  have f: "filter (\<lambda>(name, n). prefix ''.pyre'' name \<or> name \<notin> set (map fst es)) es =
           filter (\<lambda>(name, n). prefix ''.pyre'' name) es"
    by (rule filter_cong) (auto simp: image_iff)
  have m: "modify_dir (resolve (getcwd w) (get_root w s))
             (filter (\<lambda>(name, n). prefix ''.pyre'' name \<or> name \<notin> set (map fst es))) fs =
           modify_dir (resolve (getcwd w) (get_root w s))
             (filter (\<lambda>(name, n). prefix ''.pyre'' name)) fs"
    by (rule modify_dir_agree(1)
          [where f = "filter (\<lambda>(name, n). prefix ''.pyre'' name \<or> name \<notin> set (map fst es))"
             and g = "filter (\<lambda>(name, n). prefix ''.pyre'' name)", OF root f])
  show ?thesis
    using l clear_loop_result [OF root n get_root_not_Nil] m by (simp add: clear_def)
qed

text \<open>
  Claim C5.  Let the analysis root be a directory whose entries have proper names.
  \<open>_clear\<close> succeeds and leaves the tree in which the entries of the root are exactly
  those whose name begins with \<open>.pyre\<close>, each with everything below it as before, and in
  which nothing outside the root has changed.  When every entry is reserved the tree is
  unchanged; clearing the cleared tree again changes nothing; and \<open>remove_if_exists\<close> on
  a path that does not exist returns normally, without changing the tree.
\<close>

theorem clear_removes_exactly_the_unreserved_children:
  assumes root: "lookup fs (resolve (getcwd w) (get_root w s)) = Some (Dir es)"
    and names: "\<forall>name\<in>fst ` set es. entry_name name"
    and fs': "fs' = modify_dir (resolve (getcwd w) (get_root w s))
                      (filter (\<lambda>(name, n). prefix ''.pyre'' name)) fs"
  shows "clear w s fs = Inr fs' \<and>
         lookup fs' (resolve (getcwd w) (get_root w s)) =
           Some (Dir (filter (\<lambda>(name, n). prefix ''.pyre'' name) es)) \<and>
         os_listdir (getcwd w) fs' (get_root w s) = Inr (filter (prefix ''.pyre'') (map fst es)) \<and>
         (\<forall>p. \<not> prefix (resolve (getcwd w) (get_root w s)) p \<and>
              \<not> prefix p (resolve (getcwd w) (get_root w s)) \<longrightarrow> lookup fs' p = lookup fs p) \<and>
         ((\<forall>name\<in>fst ` set es. prefix ''.pyre'' name) \<longrightarrow> clear w s fs = Inr fs) \<and>
         clear w s fs' = Inr fs' \<and>
         (\<forall>path. path = [] \<or> lookup fs (resolve (getcwd w) path) = None \<longrightarrow>
                 remove_if_exists (getcwd w) fs path = Inr fs)"
proof -
  let ?r = "resolve (getcwd w) (get_root w s)"
  let ?keep = "filter (\<lambda>(name, n :: node). prefix ''.pyre'' name)"
  have n: "\<forall>name\<in>fst ` set es. prefix ''.pyre'' name \<or> entry_name name"
    using names by simp
  have 1: "clear w s fs = Inr fs'"
    unfolding fs' by (rule clear_result [OF root n])
  have 2: "lookup fs' ?r = Some (Dir (?keep es))"
    unfolding fs' by (rule lookup_modify_dir(1) [OF root])
  have 3: "os_listdir (getcwd w) fs' (get_root w s) = Inr (filter (prefix ''.pyre'') (map fst es))"
    using 2 by (simp add: os_listdir_def get_root_not_Nil filter_map comp_def case_prod_unfold)
  have 4: "\<forall>p. \<not> prefix ?r p \<and> \<not> prefix p ?r \<longrightarrow> lookup fs' p = lookup fs p"
    unfolding fs' by (simp add: modify_dir_frame(1))
  have 5: "clear w s fs = Inr fs" if "\<forall>name\<in>fst ` set es. prefix ''.pyre'' name"
  proof -
    have "?keep es = es" using that by (auto simp: filter_id_conv)
    then have "fs' = fs" unfolding fs' by (rule modify_dir_same(1) [where f = ?keep, OF root])
    with 1 show ?thesis by simp
  qed
  have n': "\<forall>name\<in>fst ` set (?keep es). prefix ''.pyre'' name \<or> entry_name name"
    by auto
  have "?keep (?keep es) = ?keep es" by simp
  then have "modify_dir ?r ?keep fs' = fs'" by (rule modify_dir_same(1) [where f = ?keep, OF 2])
  then have 6: "clear w s fs' = Inr fs'"
    using clear_result [OF 2 n'] by simp
  have 7: "\<forall>path. path = [] \<or> lookup fs (resolve (getcwd w) path) = None \<longrightarrow>
                 remove_if_exists (getcwd w) fs path = Inr fs"
    by (simp add: remove_if_exists_absent)
  from 1 2 3 4 5 6 7 show ?thesis by blast
qed

theorem clear_removes_exactly_the_unreserved_children_witness:
  "clear (table_world [] []) (directory_of {}) stale_tree = Inr cleared_tree \<and>
   clear (table_world [] []) (directory_of {}) cleared_tree = Inr cleared_tree \<and>
   os_listdir ''/'' cleared_tree ''/.pyre/shared_analysis_directory'' = Inr [''.pyre.lock'', ''.pyre_state''] \<and>
   lookup cleared_tree [''home'', ''user''] = lookup stale_tree [''home'', ''user''] \<and>
   remove_if_exists ''/'' stale_tree ''/.pyre/shared_analysis_directory/gone.py'' = Inr stale_tree"
proof -
  let ?w = "table_world [] []" and ?s = "directory_of {}"
  let ?es = "[(''.pyre.lock'', File 0), (''old.py'', Symlink ''/z/old.py''),
              (''.pyre_state'', Dir [(''saved'', File 3)]),
              (''pkg'', Dir [(''x.py'', Symlink ''/z/pkg/x.py'')]), (''notes.txt'', File 9)]"
  have cwd: "getcwd ?w = ''/''" by (simp add: table_world_def)
  have g: "get_root ?w ?s = ''/.pyre/shared_analysis_directory''" by code_simp
  have r: "resolve (getcwd ?w) (get_root ?w ?s) = [''.pyre'', ''shared_analysis_directory'']"
    by code_simp
  have root: "lookup stale_tree (resolve (getcwd ?w) (get_root ?w ?s)) = Some (Dir ?es)"
    unfolding r by code_simp
  have names: "\<forall>name\<in>fst ` set ?es. entry_name name"
    by (simp add: entry_name_def)
  have fs': "cleared_tree = modify_dir (resolve (getcwd ?w) (get_root ?w ?s))
                      (filter (\<lambda>(name, n). prefix ''.pyre'' name)) stale_tree"
    unfolding r by code_simp
  have absent: "lookup stale_tree (resolve (getcwd ?w) ''/.pyre/shared_analysis_directory/gone.py'') = None"
    by code_simp
  have other: "\<not> prefix (resolve (getcwd ?w) (get_root ?w ?s)) [''home'', ''user''] \<and>
               \<not> prefix [''home'', ''user''] (resolve (getcwd ?w) (get_root ?w ?s))"
    unfolding r by simp
  have f: "filter (prefix ''.pyre'') (map fst ?es) = [''.pyre.lock'', ''.pyre_state'']"
    by simp
  from clear_removes_exactly_the_unreserved_children [OF root names fs'] absent other
  show ?thesis unfolding cwd g f by blast
qed

section \<open>When the upward walk returns\<close>

text \<open>
  The walk of \<open>find_root\<close> returns whenever the absolute start has exactly one leading
  slash, as every path made from \<open>os.getcwd()\<close> has; and a directory it returns holds
  the marker file and is not the root directory.
\<close>

lemma rstrip_sep_prefix: "prefix (rstrip_sep s) s"
proof -
  have "suffix (dropWhile (\<lambda>c. c = CHR ''/'') (rev s)) (rev s)" by (rule suffix_dropWhile)
  then show ?thesis by (simp add: rstrip_sep_def suffix_to_prefix)
qed

lemma dirname_prefix: "prefix (dirname p) p"
proof -
  let ?head = "rev (dropWhile (\<lambda>c. c \<noteq> CHR ''/'') (rev p))"
  have "suffix (dropWhile (\<lambda>c. c \<noteq> CHR ''/'') (rev p)) (rev p)" by (rule suffix_dropWhile)
  then have h: "prefix ?head p" by (simp add: suffix_to_prefix)
  have "prefix (rstrip_sep ?head) p"
    using rstrip_sep_prefix [of ?head] h by (rule prefix_order.trans)
  with h show ?thesis by (simp add: dirname_def Let_def)
qed

lemma dirname_shorter:
  assumes "prefix ''/'' c" "\<not> prefix ''//'' c" "c \<noteq> ''/''"
  shows "dirname c \<noteq> [] \<and> length (dirname c) < length c"
proof -
  let ?head = "rev (dropWhile (\<lambda>c. c \<noteq> CHR ''/'') (rev c))"
  have "CHR ''/'' \<in> set (rev c)" using assms(1) by (auto simp: prefix_def)
  then have dne: "dropWhile (\<lambda>c. c \<noteq> CHR ''/'') (rev c) \<noteq> []"
    by (simp add: dropWhile_eq_Nil_conv)
  then have hne: "?head \<noteq> []" by simp
  have hl: "hd (dropWhile (\<lambda>c. c \<noteq> CHR ''/'') (rev c)) = CHR ''/''"
    using dne hd_dropWhile [of "\<lambda>c. c \<noteq> CHR ''/''" "rev c"] by simp
  have hp: "prefix ?head c"
    using suffix_dropWhile [of "\<lambda>c. c \<noteq> CHR ''/''" "rev c"] by (simp add: suffix_to_prefix)
  show ?thesis
  proof (cases "?head = replicate (length ?head) CHR ''/''")
    case True
    then have d: "dirname c = ?head" by (simp add: dirname_def Let_def)
    have "?head \<noteq> c"
    proof
      assume e: "?head = c"
      then have "c = replicate (length c) CHR ''/''" using True by simp
      then show False using assms by (cases c; cases "tl c") (auto simp: prefix_def)
    qed
    then have "length ?head < length c" using hp
      by (metis prefix_order.le_less prefix_length_less)
    with d hne show ?thesis by simp
  next
    case False
    then have d: "dirname c = rstrip_sep ?head" using hne by (simp add: dirname_def Let_def)
    have nall: "\<not> (\<forall>x\<in>set ?head. x = CHR ''/'')"
      using False by (metis replicate_eqI)
    then have ne: "rstrip_sep ?head \<noteq> []"
      by (auto simp: rstrip_sep_def dropWhile_eq_Nil_conv)
    obtain list where list: "dropWhile (\<lambda>c. c \<noteq> CHR ''/'') (rev c) = CHR ''/'' # list"
      using dne hl by (cases "dropWhile (\<lambda>c. c \<noteq> CHR ''/'') (rev c)") auto
    have "length (dropWhile (\<lambda>c. c = CHR ''/'') list) \<le> length list"
      by (rule length_dropWhile_le)
    then have "length (rstrip_sep ?head) < length ?head"
      using list by (simp add: rstrip_sep_def)
    moreover have "length ?head \<le> length c" using hp by (rule prefix_length_le)
    ultimately show ?thesis using d ne by simp
  qed
qed

lemma dirname_single_slash:
  assumes "prefix ''/'' c" "\<not> prefix ''//'' c" "c \<noteq> ''/''"
  shows "prefix ''/'' (dirname c) \<and> \<not> prefix ''//'' (dirname c) \<and> length (dirname c) < length c"
proof -
  from dirname_shorter [OF assms] have ne: "dirname c \<noteq> []" and l: "length (dirname c) < length c"
    by simp_all
  have p: "prefix (dirname c) c" by (rule dirname_prefix)
  have 1: "prefix ''/'' (dirname c)"
    using ne p assms(1) by (cases "dirname c"; cases c) (auto simp: prefix_def)
  have 2: "\<not> prefix ''//'' (dirname c)"
    using p assms(2) prefix_order.trans by blast
  from 1 2 l show ?thesis by blast
qed

lemma find_root_loop_returns:
  "prefix ''/'' c \<Longrightarrow> \<not> prefix ''//'' c \<Longrightarrow> \<exists>r. find_root_loop w t c = Some r"
proof (induction "length c" arbitrary: c rule: less_induct)
  case less
  show ?case
  proof (cases "c = ''/''")
    case True
    then show ?thesis by (subst find_root_loop.simps) simp
  next
    case False
    from dirname_single_slash [OF less.prems False] less.hyps
    have "\<exists>r. find_root_loop w t (dirname c) = Some r" by blast
    then show ?thesis using False by (subst find_root_loop.simps) (simp add: Let_def)
  qed
qed

lemma normpath_comps_step:
  "normpath_comps b (a # xs) acc = normpath_comps b xs acc \<or>
   (a \<noteq> [] \<and> normpath_comps b (a # xs) acc = normpath_comps b xs (acc @ [a])) \<or>
   normpath_comps b (a # xs) acc = normpath_comps b xs (butlast acc)"
  by simp

lemma normpath_comps_subset:
  "x \<in> set (normpath_comps b xs acc) \<Longrightarrow> x \<in> set acc \<or> (x \<in> set xs \<and> x \<noteq> [])"
proof (induction xs arbitrary: acc)
  case Nil
  then show ?case by simp
next
  case (Cons a xs)
  consider (skip) "normpath_comps b (a # xs) acc = normpath_comps b xs acc"
    | (push) "a \<noteq> []" "normpath_comps b (a # xs) acc = normpath_comps b xs (acc @ [a])"
    | (pop) "normpath_comps b (a # xs) acc = normpath_comps b xs (butlast acc)"
    using normpath_comps_step [of b a xs acc] by blast
  then show ?case
  proof cases
    case skip
    with Cons.prems have "x \<in> set (normpath_comps b xs acc)" by simp
    from Cons.IH [OF this] show ?thesis by auto
  next
    case push
    with Cons.prems have "x \<in> set (normpath_comps b xs (acc @ [a]))" by simp
    from Cons.IH [OF this] push(1) show ?thesis by auto
  next
    case pop
    with Cons.prems have "x \<in> set (normpath_comps b xs (butlast acc))" by simp
    from Cons.IH [OF this] show ?thesis by (auto dest: in_set_butlastD)
  qed
qed

lemma split_chr_no_sep_inside: "x \<in> set (split_chr c xs) \<Longrightarrow> c \<notin> set x"
  by (induction xs arbitrary: x) (auto split: if_splits list.splits)

lemma sep_join_Cons: "\<exists>ys. sep_join (c # cs) = c @ ys"
  by (cases cs) auto

lemma sep_join_no_leading_sep:
  assumes "\<forall>x\<in>set comps. x \<noteq> [] \<and> CHR ''/'' \<notin> set x"
  shows "\<not> prefix ''/'' (sep_join comps)"
proof (cases comps)
  case Nil
  then show ?thesis by simp
next
  case (Cons c cs)
  obtain ys where ys: "sep_join (c # cs) = c @ ys" using sep_join_Cons by blast
  have "c \<noteq> []" "CHR ''/'' \<notin> set c" using assms Cons by simp_all
  then show ?thesis using Cons ys by (cases c) (auto simp: prefix_def)
qed

lemma normpath_single_slash:
  assumes "initial_slashes p = 1"
  shows "prefix ''/'' (normpath p) \<and> \<not> prefix ''//'' (normpath p)"
proof -
  let ?comps = "normpath_comps True (split_chr CHR ''/'' p) []"
  have "\<forall>x\<in>set ?comps. x \<noteq> [] \<and> CHR ''/'' \<notin> set x"
    by (auto dest!: normpath_comps_subset dest: split_chr_no_sep_inside)
  then have n: "\<not> prefix ''/'' (sep_join ?comps)" by (rule sep_join_no_leading_sep)
  have pne: "p \<noteq> []" using assms by (auto simp: initial_slashes_def)
  have "normpath p = CHR ''/'' # sep_join ?comps"
    using assms pne by (simp add: normpath_def Let_def)
  then show ?thesis using n by (simp add: prefix_def)
qed

lemma find_root_returns:
  assumes "initial_slashes (if isabs start then start else join (getcwd w) start) = 1"
  shows "\<exists>r. find_root w start target_file = Some r"
proof -
  from normpath_single_slash [OF assms]
  have "prefix ''/'' (abspath (getcwd w) start) \<and> \<not> prefix ''//'' (abspath (getcwd w) start)"
    by (simp add: abspath_def)
  then show ?thesis by (simp add: find_root_def find_root_loop_returns)
qed

lemma find_root_loop_found:
  assumes "find_root_loop w t c = Some r"
  shows "r = Some d \<longrightarrow> isfile w (join d t) \<and> d \<noteq> ''/''"
  by (rule find_root_loop.raw_induct
        [where P = "\<lambda>w t c r. r = Some d \<longrightarrow> isfile w (join d t) \<and> d \<noteq> ''/''", OF _ assms])
     (auto simp: Let_def split: if_splits)

end
